theory Spec2Isabelle
  imports Complex_Main "HOL-Library.AList" "HOL-Library.Multiset" "HOL-Library.Product_Lexorder"
begin

section \<open>JavaScript numbers\<close>

text \<open>
  A JavaScript \<open>number\<close> is a finite value, \<open>NaN\<close>, \<open>Infinity\<close> or \<open>-Infinity\<close>.
  Finite values are modelled as rationals with exact arithmetic: the rounding of the binary
  floating-point format, overflow to infinity and the sign of zero are outside the model.
  The ratings of the assessment (1 to 5 in steps of 0.5) and their sums are exact in both.
\<close>

datatype number = Fin rat | NaN | PosInf | NegInf

fun isFinite :: "number \<Rightarrow> bool" where
  "isFinite (Fin x) = True"
| "isFinite NaN = False"
| "isFinite PosInf = False"
| "isFinite NegInf = False"

text \<open>\<open>a + b\<close>\<close>

fun num_add :: "number \<Rightarrow> number \<Rightarrow> number" where
  "num_add (Fin x) (Fin y) = Fin (x + y)"
| "num_add NaN b = NaN"
| "num_add a NaN = NaN"
| "num_add PosInf NegInf = NaN"
| "num_add NegInf PosInf = NaN"
| "num_add PosInf b = PosInf"
| "num_add NegInf b = NegInf"
| "num_add (Fin x) PosInf = PosInf"
| "num_add (Fin x) NegInf = NegInf"

text \<open>\<open>a - b\<close>\<close>

fun num_sub :: "number \<Rightarrow> number \<Rightarrow> number" where
  "num_sub (Fin x) (Fin y) = Fin (x - y)"
| "num_sub NaN b = NaN"
| "num_sub a NaN = NaN"
| "num_sub PosInf PosInf = NaN"
| "num_sub NegInf NegInf = NaN"
| "num_sub PosInf b = PosInf"
| "num_sub NegInf b = NegInf"
| "num_sub (Fin x) PosInf = NegInf"
| "num_sub (Fin x) NegInf = PosInf"

text \<open>\<open>a / b\<close>; a finite value divided by zero is an infinity of its sign, \<open>0 / 0\<close> is \<open>NaN\<close>.\<close>

fun num_div :: "number \<Rightarrow> number \<Rightarrow> number" where
  "num_div (Fin x) (Fin y) =
     (if y = 0 then (if x = 0 then NaN else if 0 < x then PosInf else NegInf)
      else Fin (x / y))"
| "num_div NaN b = NaN"
| "num_div a NaN = NaN"
| "num_div (Fin x) PosInf = Fin 0"
| "num_div (Fin x) NegInf = Fin 0"
| "num_div PosInf (Fin y) = (if 0 \<le> y then PosInf else NegInf)"
| "num_div NegInf (Fin y) = (if 0 \<le> y then NegInf else PosInf)"
| "num_div PosInf b = NaN"
| "num_div NegInf b = NaN"

text \<open>\<open>a > b\<close>, \<open>a >= b\<close> and \<open>a <= b\<close>: every comparison with \<open>NaN\<close> is false.\<close>

fun num_gt :: "number \<Rightarrow> number \<Rightarrow> bool" where
  "num_gt (Fin x) (Fin y) = (y < x)"
| "num_gt NaN b = False"
| "num_gt a NaN = False"
| "num_gt PosInf PosInf = False"
| "num_gt PosInf b = True"
| "num_gt NegInf b = False"
| "num_gt (Fin x) PosInf = False"
| "num_gt (Fin x) NegInf = True"

fun num_ge :: "number \<Rightarrow> number \<Rightarrow> bool" where
  "num_ge (Fin x) (Fin y) = (y \<le> x)"
| "num_ge NaN b = False"
| "num_ge a NaN = False"
| "num_ge PosInf b = True"
| "num_ge NegInf NegInf = True"
| "num_ge NegInf b = False"
| "num_ge (Fin x) PosInf = False"
| "num_ge (Fin x) NegInf = True"

definition num_le :: "number \<Rightarrow> number \<Rightarrow> bool" where
  "num_le a b = num_ge b a"

text \<open>\<open>Math.max(a, b)\<close>\<close>

fun Math_max :: "number \<Rightarrow> number \<Rightarrow> number" where
  "Math_max (Fin x) (Fin y) = Fin (max x y)"
| "Math_max NaN b = NaN"
| "Math_max a NaN = NaN"
| "Math_max PosInf b = PosInf"
| "Math_max a PosInf = PosInf"
| "Math_max NegInf b = b"
| "Math_max a NegInf = a"

text \<open>
  \<open>x.toFixed(2)\<close> read back by \<open>parseFloat\<close> or \<open>Number\<close>. For a finite \<open>x\<close>, \<open>toFixed\<close>
  takes the integer \<open>n\<close> with \<open>n / 100\<close> closest to \<open>|x|\<close>, the larger one of two, and prints
  \<open>n / 100\<close> with the sign of \<open>x\<close>; the strings \<open>NaN\<close>, \<open>Infinity\<close> and \<open>-Infinity\<close> of the
  other values are read back as themselves.
\<close>

definition round2 :: "rat \<Rightarrow> rat" where
  "round2 x =
     (if x < 0 then - (of_int \<lfloor>- x * 100 + 1 / 2\<rfloor> / 100)
      else of_int \<lfloor>x * 100 + 1 / 2\<rfloor> / 100)"

fun toFixed2 :: "number \<Rightarrow> number" where
  "toFixed2 (Fin x) = Fin (round2 x)"
| "toFixed2 NaN = NaN"
| "toFixed2 PosInf = PosInf"
| "toFixed2 NegInf = NegInf"

section \<open>Values of unknown type and their conversion\<close>

text \<open>
  The rows that the database driver returns are untyped. A column value is \<open>null\<close>, a number
  (integer columns) or a string (numeric and decimal columns).
\<close>

datatype unknown = Null | Undefined | NumberV number | StringV string

definition is_white :: "char \<Rightarrow> bool" where
  "is_white c = (c \<in> set [CHR '' '', CHR 0x09, CHR 0x0A, CHR 0x0B, CHR 0x0C, CHR 0x0D])"

text \<open>\<open>s.trim()\<close>, for the white space of ASCII.\<close>

definition trim :: "string \<Rightarrow> string" where
  "trim s = rev (dropWhile is_white (rev (dropWhile is_white s)))"

definition digit_of :: "nat \<Rightarrow> char \<Rightarrow> nat option" where
  "digit_of base c =
     (let n = of_char c :: nat;
          v = (if 48 \<le> n \<and> n \<le> 57 then Some (n - 48)
               else if 97 \<le> n \<and> n \<le> 102 then Some (n - 87)
               else if 65 \<le> n \<and> n \<le> 70 then Some (n - 55)
               else None)
      in case v of None \<Rightarrow> None | Some d \<Rightarrow> (if d < base then Some d else None))"

fun digits_value :: "nat \<Rightarrow> nat \<Rightarrow> string \<Rightarrow> nat option" where
  "digits_value base acc [] = Some acc"
| "digits_value base acc (c # cs) =
     (case digit_of base c of
        None \<Rightarrow> None
      | Some d \<Rightarrow> digits_value base (acc * base + d) cs)"

text \<open>A non-empty run of digits of the base, as a natural number.\<close>

definition numeral_value :: "nat \<Rightarrow> string \<Rightarrow> nat option" where
  "numeral_value base s = (if s = [] then None else digits_value base 0 s)"

definition is_digit :: "char \<Rightarrow> bool" where
  "is_digit c = (digit_of 10 c \<noteq> None)"

text \<open>The exponent part of a decimal literal: empty, or \<open>e\<close> or \<open>E\<close>, a sign, digits.\<close>

definition exponent_value :: "string \<Rightarrow> int option" where
  "exponent_value s =
     (case s of
        [] \<Rightarrow> Some 0
      | c # r \<Rightarrow>
          if c = CHR ''e'' \<or> c = CHR ''E'' then
            (case r of
               [] \<Rightarrow> None
             | d # r' \<Rightarrow>
                 if d = CHR ''-'' then map_option (\<lambda>n. - int n) (numeral_value 10 r')
                 else if d = CHR ''+'' then map_option int (numeral_value 10 r')
                 else map_option int (numeral_value 10 r))
          else None)"

definition scale10 :: "rat \<Rightarrow> int \<Rightarrow> rat" where
  "scale10 m e = (if 0 \<le> e then m * 10 ^ nat e else m / 10 ^ nat (- e))"

text \<open>An unsigned decimal literal: \<open>12\<close>, \<open>12.\<close>, \<open>12.5\<close>, \<open>.5\<close>, each with an optional exponent.\<close>

definition unsigned_decimal :: "string \<Rightarrow> rat option" where
  "unsigned_decimal s =
     (let ip = takeWhile is_digit s;
          r1 = dropWhile is_digit s;
          dotted = (r1 \<noteq> [] \<and> hd r1 = CHR ''.'');
          fp = (if dotted then takeWhile is_digit (tl r1) else []);
          r2 = (if dotted then dropWhile is_digit (tl r1) else r1)
      in if ip = [] \<and> fp = [] then None
         else case (digits_value 10 0 ip, digits_value 10 0 fp, exponent_value r2) of
                (Some i, Some f, Some e) \<Rightarrow>
                  Some (scale10 (of_nat i + of_nat f / 10 ^ length fp) e)
              | _ \<Rightarrow> None)"

definition signed_decimal :: "string \<Rightarrow> number" where
  "signed_decimal s =
     (let neg = (s \<noteq> [] \<and> hd s = CHR ''-'');
          body = (if s \<noteq> [] \<and> (hd s = CHR ''-'' \<or> hd s = CHR ''+'') then tl s else s)
      in if body = ''Infinity'' then (if neg then NegInf else PosInf)
         else case unsigned_decimal body of
                None \<Rightarrow> NaN
              | Some q \<Rightarrow> Fin (if neg then - q else q))"

text \<open>
  \<open>Number(s)\<close> for a string: the empty string and white space are \<open>0\<close>; hexadecimal, octal
  and binary literals take no sign; everything that is no numeric literal is \<open>NaN\<close>.
\<close>

definition prefixed_literal :: "string \<Rightarrow> nat option" where
  "prefixed_literal s =
     (case s of
        a # b # r \<Rightarrow>
          if a \<noteq> CHR ''0'' then None
          else if b = CHR ''x'' \<or> b = CHR ''X'' then Some 16
          else if b = CHR ''o'' \<or> b = CHR ''O'' then Some 8
          else if b = CHR ''b'' \<or> b = CHR ''B'' then Some 2
          else None
      | _ \<Rightarrow> None)"

definition Number_of_string :: "string \<Rightarrow> number" where
  "Number_of_string s =
     (let t = trim s
      in if t = [] then Fin 0
         else case prefixed_literal t of
                Some base \<Rightarrow>
                  (case numeral_value base (drop 2 t) of
                     None \<Rightarrow> NaN
                   | Some n \<Rightarrow> Fin (of_nat n))
              | None \<Rightarrow> signed_decimal t)"

text \<open>\<open>Number(value)\<close>\<close>

fun Number :: "unknown \<Rightarrow> number" where
  "Number Null = Fin 0"
| "Number Undefined = NaN"
| "Number (NumberV n) = n"
| "Number (StringV s) = Number_of_string s"

section \<open>The scoring service\<close>

subsection \<open>Gap and aggregates\<close>

record TopicGap =
  gap :: number
  normalizedGap :: number

record Ratings =
  currentRating :: number
  targetRating :: number

record DimensionMetrics =
  m_score :: number
  m_gap :: number

record OverallMetrics =
  overallScore :: number
  overallGap :: number

fun toFiniteNumber :: "unknown \<Rightarrow> number option" where
  "toFiniteNumber (NumberV v) = (if isFinite v then Some v else None)"
| "toFiniteNumber (StringV v) =
     (if trim v \<noteq> [] then
        (let parsed = Number (StringV v) in if isFinite parsed then Some parsed else None)
      else None)"
| "toFiniteNumber Null = None"
| "toFiniteNumber Undefined = None"

definition calculateTopicGap :: "number \<Rightarrow> number \<Rightarrow> TopicGap" where
  "calculateTopicGap current target =
     (let g = num_sub target current;
          n = (if num_gt g (Fin 0) then g else Fin 0)
      in \<lparr>gap = g, normalizedGap = n\<rparr>)"

text \<open>
  The loop of \<open>calculateDimensionMetrics\<close> over the topics, with its three accumulators
  \<open>totalCurrent\<close>, \<open>totalNormalizedGap\<close> and \<open>validTopics\<close>.
\<close>

fun dimension_loop ::
  "number \<times> number \<times> nat \<Rightarrow> 'a Ratings_scheme list \<Rightarrow> number \<times> number \<times> nat" where
  "dimension_loop acc [] = acc"
| "dimension_loop (totalCurrent, totalNormalizedGap, validTopics) (topic # topics) =
     (if \<not> isFinite (currentRating topic) \<or> \<not> isFinite (targetRating topic)
      then dimension_loop (totalCurrent, totalNormalizedGap, validTopics) topics
      else dimension_loop
             (num_add totalCurrent (currentRating topic),
              num_add totalNormalizedGap
                (normalizedGap (calculateTopicGap (currentRating topic) (targetRating topic))),
              validTopics + 1)
             topics)"

definition calculateDimensionMetrics :: "'a Ratings_scheme list \<Rightarrow> DimensionMetrics" where
  "calculateDimensionMetrics topics =
     (if length topics = 0 then \<lparr>m_score = Fin 0, m_gap = Fin 0\<rparr>
      else case dimension_loop (Fin 0, Fin 0, 0) topics of
        (totalCurrent, totalNormalizedGap, validTopics) \<Rightarrow>
          if validTopics = 0 then \<lparr>m_score = Fin 0, m_gap = Fin 0\<rparr>
          else \<lparr>m_score = toFixed2 (num_div totalCurrent (Fin (of_nat validTopics))),
                m_gap = toFixed2 (num_div totalNormalizedGap (Fin (of_nat validTopics)))\<rparr>)"

text \<open>The second parameter, the impact weight with default 1, is not used by the code.\<close>

definition calculatePriorityScore :: "number \<Rightarrow> number \<Rightarrow> number" where
  "calculatePriorityScore g impact = toFixed2 g"

fun overall_loop :: "number \<times> number \<Rightarrow> 'a DimensionMetrics_scheme list \<Rightarrow> number \<times> number" where
  "overall_loop acc [] = acc"
| "overall_loop (totalScore, totalGap) (d # ds) =
     overall_loop (num_add totalScore (m_score d), num_add totalGap (m_gap d)) ds"

definition calculateOverallMetrics :: "'a DimensionMetrics_scheme list \<Rightarrow> OverallMetrics" where
  "calculateOverallMetrics dimensions =
     (if length dimensions = 0 then \<lparr>overallScore = Fin 0, overallGap = Fin 0\<rparr>
      else case overall_loop (Fin 0, Fin 0) dimensions of
        (totalScore, totalGap) \<Rightarrow>
          \<lparr>overallScore = toFixed2 (num_div totalScore (Fin (of_nat (length dimensions)))),
           overallGap = toFixed2 (num_div totalGap (Fin (of_nat (length dimensions))))\<rparr>)"

subsection \<open>Matching a rule\<close>

fun toNullableNumber :: "unknown \<Rightarrow> number option" where
  "toNullableNumber Null = None"
| "toNullableNumber Undefined = None"
| "toNullableNumber (NumberV v) = (if isFinite v then Some v else None)"
| "toNullableNumber (StringV v) =
     (let parsed = Number (StringV v) in if isFinite parsed then Some parsed else None)"

record Bounds =
  score_min :: "number option"
  score_max :: "number option"
  target_min :: "number option"
  target_max :: "number option"
  gap_min :: "number option"
  gap_max :: "number option"

definition matchesConditions :: "'a Bounds_scheme \<Rightarrow> number \<Rightarrow> number \<Rightarrow> number \<Rightarrow> bool" where
  "matchesConditions rec score target g =
     ((score_min rec = None \<or> num_ge score (the (score_min rec))) \<and>
      (score_max rec = None \<or> num_le score (the (score_max rec))) \<and>
      (target_min rec = None \<or> num_ge target (the (target_min rec))) \<and>
      (target_max rec = None \<or> num_le target (the (target_max rec))) \<and>
      (gap_min rec = None \<or> num_ge g (the (gap_min rec))) \<and>
      (gap_max rec = None \<or> num_le g (the (gap_max rec))))"

text \<open>
  The gap that \<open>computeResults\<close> compares with the bounds of a rule:
  \<open>Number(Math.max(0, target - score).toFixed(2))\<close>.
\<close>

definition matchingGap :: "number \<Rightarrow> number \<Rightarrow> number" where
  "matchingGap score target = toFixed2 (Math_max (Fin 0) (num_sub target score))"

subsection \<open>The aggregates as the specification words them\<close>

definition finite_value :: "number \<Rightarrow> rat" where
  "finite_value n = (case n of Fin x \<Rightarrow> x | _ \<Rightarrow> 0)"


definition spec_valid_pairs :: "'a Ratings_scheme list \<Rightarrow> 'a Ratings_scheme list" where
  "spec_valid_pairs topics =
     filter (\<lambda>t. isFinite (currentRating t) \<and> isFinite (targetRating t)) topics"

definition spec_normalized_gap :: "'a Ratings_scheme \<Rightarrow> rat" where
  "spec_normalized_gap t = max (finite_value (targetRating t) - finite_value (currentRating t)) 0"




section \<open>The relational store\<close>

text \<open>
  Tables are lists of rows in storage order, with the columns that \<open>computeResults\<close> reads
  or writes. Identifiers are strings; a point in time is a number of ticks. The generated
  primary key of \<open>computed_priorities\<close> is left out.
\<close>

type_synonym uuid = string
type_synonym timestamp = nat

record topic_responses_row =
  tr_id :: uuid
  tr_response_id :: uuid
  tr_topic_id :: uuid
  tr_current_rating :: unknown
  tr_target_rating :: unknown

record topics_row =
  t_id :: uuid
  t_dimension_id :: uuid
  t_topic_key :: string
  t_order_index :: int

record dimensions_row =
  d_id :: uuid
  d_title :: string
  d_order_index :: int

text \<open>
  \<open>action_items\<close> is a JSON column: \<open>Some xs\<close> is a JSON array, \<open>None\<close> any other JSON
  value. \<open>priority\<close> is an integer column that is not null.
\<close>

record topic_recommendations_row =
  rec_id :: uuid
  rec_topic_id :: uuid
  rec_score_min :: unknown
  rec_score_max :: unknown
  rec_target_min :: unknown
  rec_target_max :: unknown
  rec_gap_min :: unknown
  rec_gap_max :: unknown
  rec_title :: string
  rec_description :: "string option"
  rec_why :: "string option"
  rec_what :: "string option"
  rec_how :: "string option"
  rec_action_items :: "string list option"
  rec_category :: string
  rec_priority :: int
  rec_tags :: "string list"
  rec_is_active :: bool
  rec_order_index :: int

record Recommendation =
  r_id :: string
  r_title :: string
  r_description :: "string option"
  r_why :: "string option"
  r_what :: "string option"
  r_how :: "string option"
  r_action_items :: "string list"
  r_category :: string
  r_priority :: number
  r_tags :: "string list"
  r_topicId :: string
  r_topicKey :: string

record computed_priorities_row =
  cp_response_id :: uuid
  cp_dimension_id :: uuid
  cp_dimension_score :: number
  cp_dimension_gap :: number
  cp_priority_score :: number
  cp_rank_order :: nat
  cp_recommendations :: "Recommendation list"
  cp_computed_at :: timestamp

record assessment_responses_row =
  ar_id :: uuid
  ar_status :: string
  ar_completed_at :: "timestamp option"
  ar_last_updated_at :: "timestamp option"
  ar_overall_score :: "number option"
  ar_overall_gap :: "number option"

record database =
  db_topic_responses :: "topic_responses_row list"
  db_topics :: "topics_row list"
  db_dimensions :: "dimensions_row list"
  db_topic_recommendations :: "topic_recommendations_row list"
  db_computed_priorities :: "computed_priorities_row list"
  db_assessment_responses :: "assessment_responses_row list"

subsection \<open>The two queries\<close>

text \<open>A row of the first query: a topic response joined with its topic and dimension.\<close>

record topicResponses_row =
  q_id :: uuid
  q_topic_id :: uuid
  q_current_rating :: unknown
  q_target_rating :: unknown
  q_topic_key :: string
  q_dimension_id :: uuid
  q_dimension_title :: string
  q_order_index :: int

text \<open>\<open>FROM topic_responses tr JOIN topics t ... JOIN dimensions d ... WHERE tr.response_id = $1\<close>\<close>

definition join_topic_responses ::
  "database \<Rightarrow> uuid \<Rightarrow> (topic_responses_row \<times> topics_row \<times> dimensions_row) list" where
  "join_topic_responses db responseId =
     [(tr, t, d). tr \<leftarrow> db_topic_responses db, t \<leftarrow> db_topics db, d \<leftarrow> db_dimensions db,
                  tr_topic_id tr = t_id t, t_dimension_id t = d_id d,
                  tr_response_id tr = responseId]"

text \<open>
  \<open>ORDER BY d.order_index, t.order_index\<close>. SQL leaves the order of rows with equal keys
  open; the model keeps them in storage order.
\<close>

definition select_topic_responses :: "database \<Rightarrow> uuid \<Rightarrow> topicResponses_row list" where
  "select_topic_responses db responseId =
     map (\<lambda>(tr, t, d).
            \<lparr>q_id = tr_id tr, q_topic_id = tr_topic_id tr,
             q_current_rating = tr_current_rating tr, q_target_rating = tr_target_rating tr,
             q_topic_key = t_topic_key t, q_dimension_id = t_dimension_id t,
             q_dimension_title = d_title d, q_order_index = d_order_index d\<rparr>)
       (sort_key (\<lambda>(tr, t, d). (d_order_index d, t_order_index t))
          (join_topic_responses db responseId))"

text \<open>A row of the second query: an active rule joined with its topic.\<close>

record allTopicRecs_row =
  a_id :: uuid
  a_topic_id :: uuid
  a_score_min :: unknown
  a_score_max :: unknown
  a_target_min :: unknown
  a_target_max :: unknown
  a_gap_min :: unknown
  a_gap_max :: unknown
  a_title :: string
  a_description :: "string option"
  a_why :: "string option"
  a_what :: "string option"
  a_how :: "string option"
  a_action_items :: "string list option"
  a_category :: string
  a_priority :: int
  a_tags :: "string list"
  a_dimension_id :: uuid
  a_topic_key :: string

definition select_row :: "topic_recommendations_row \<Rightarrow> topics_row \<Rightarrow> allTopicRecs_row" where
  "select_row r t =
     \<lparr>a_id = rec_id r, a_topic_id = rec_topic_id r,
      a_score_min = rec_score_min r, a_score_max = rec_score_max r,
      a_target_min = rec_target_min r, a_target_max = rec_target_max r,
      a_gap_min = rec_gap_min r, a_gap_max = rec_gap_max r,
      a_title = rec_title r, a_description = rec_description r,
      a_why = rec_why r, a_what = rec_what r, a_how = rec_how r,
      a_action_items = rec_action_items r,
      a_category = rec_category r, a_priority = rec_priority r, a_tags = rec_tags r,
      a_dimension_id = t_dimension_id t, a_topic_key = t_topic_key t\<rparr>"

text \<open>
  \<open>FROM topic_recommendations tr JOIN topics t ON t.id = tr.topic_id
  WHERE tr.topic_id = ANY($1) AND tr.is_active = true\<close>
\<close>

definition join_topic_recs ::
  "database \<Rightarrow> uuid list \<Rightarrow> (topic_recommendations_row \<times> topics_row) list" where
  "join_topic_recs db topicIds =
     [(r, t). r \<leftarrow> db_topic_recommendations db, t \<leftarrow> db_topics db,
              t_id t = rec_topic_id r, rec_topic_id r \<in> set topicIds, rec_is_active r]"

text \<open>\<open>ORDER BY tr.priority DESC, tr.order_index ASC\<close>\<close>

definition select_topic_recs :: "database \<Rightarrow> uuid list \<Rightarrow> allTopicRecs_row list" where
  "select_topic_recs db topicIds =
     map (\<lambda>(r, t). select_row r t)
       (sort_key (\<lambda>(r, t). (- rec_priority r, rec_order_index r))
          (join_topic_recs db topicIds))"

subsection \<open>The two writes\<close>

text \<open>
  \<open>INSERT ... ON CONFLICT (response_id, dimension_id) DO UPDATE SET ...\<close> for one row of the
  \<open>VALUES\<close> list, and for the whole list.
\<close>

fun upsert_priority ::
  "computed_priorities_row \<Rightarrow> computed_priorities_row list \<Rightarrow> computed_priorities_row list" where
  "upsert_priority excluded [] = [excluded]"
| "upsert_priority excluded (old # rest) =
     (if cp_response_id old = cp_response_id excluded \<and>
         cp_dimension_id old = cp_dimension_id excluded
      then old\<lparr>cp_dimension_score := cp_dimension_score excluded,
               cp_dimension_gap := cp_dimension_gap excluded,
               cp_priority_score := cp_priority_score excluded,
               cp_rank_order := cp_rank_order excluded,
               cp_recommendations := cp_recommendations excluded,
               cp_computed_at := cp_computed_at excluded\<rparr> # rest
      else old # upsert_priority excluded rest)"

text \<open>
  The rows of one statement of \<open>computeResults\<close> have distinct keys, so the case in which the
  store rejects a statement that would update a row twice does not arise.
\<close>

definition insert_priorities :: "computed_priorities_row list \<Rightarrow> database \<Rightarrow> database" where
  "insert_priorities vals db =
     db\<lparr>db_computed_priorities :=
          foldl (\<lambda>tbl v. upsert_priority v tbl) (db_computed_priorities db) vals\<rparr>"

text \<open>\<open>UPDATE assessment_responses SET ... WHERE id = $1\<close>\<close>

definition update_response :: "timestamp \<Rightarrow> uuid \<Rightarrow> number \<Rightarrow> number \<Rightarrow> database \<Rightarrow> database" where
  "update_response now responseId overall_score overall_gap db =
     db\<lparr>db_assessment_responses :=
          map (\<lambda>r. if ar_id r = responseId
                    then r\<lparr>ar_status := ''completed'', ar_completed_at := Some now,
                           ar_overall_score := Some overall_score,
                           ar_overall_gap := Some overall_gap,
                           ar_last_updated_at := Some now\<rparr>
                    else r)
            (db_assessment_responses db)\<rparr>"

subsection \<open>Connections and transactions\<close>

text \<open>
  A connection holds the committed database, which every other session observes, and the
  private view of its open transaction, if there is one.
\<close>

record connection =
  committed :: database
  transaction :: "database option"

definition exec_BEGIN :: "connection \<Rightarrow> connection" where
  "exec_BEGIN c = c\<lparr>transaction := Some (committed c)\<rparr>"

definition exec_COMMIT :: "connection \<Rightarrow> connection" where
  "exec_COMMIT c =
     (case transaction c of
        None \<Rightarrow> c
      | Some w \<Rightarrow> \<lparr>committed = w, transaction = None\<rparr>)"

definition exec_ROLLBACK :: "connection \<Rightarrow> connection" where
  "exec_ROLLBACK c = c\<lparr>transaction := None\<rparr>"

text \<open>What a statement of the connection reads, and how a statement of it writes.\<close>

definition snapshot :: "connection \<Rightarrow> database" where
  "snapshot c = (case transaction c of None \<Rightarrow> committed c | Some w \<Rightarrow> w)"

definition exec_write :: "(database \<Rightarrow> database) \<Rightarrow> connection \<Rightarrow> connection" where
  "exec_write f c =
     (case transaction c of
        None \<Rightarrow> c\<lparr>committed := f (committed c)\<rparr>
      | Some w \<Rightarrow> c\<lparr>transaction := Some (f w)\<rparr>)"

text \<open>
  The statements that \<open>computeResults\<close> sends, and the error of a statement that the store
  rejects. Which statements fail (a lost connection, a violated constraint, a timeout) is
  not decided by the code: it is a parameter \<open>fails\<close> of the model.
\<close>

datatype statement =
  GET_CLIENT | BEGIN | SELECT_TOPIC_RESPONSES | SELECT_TOPIC_RECS
  | INSERT_PRIORITIES | UPDATE_RESPONSE | COMMIT

datatype error = DatabaseError statement

subsection \<open>Maps and arrays of the language\<close>

text \<open>
  A \<open>Map\<close> keeps its keys in insertion order: it is an association list, \<open>set\<close> replaces the
  value of a key in place or appends a new key.
\<close>

type_synonym ('k, 'v) Map = "('k \<times> 'v) list"

definition Map_has :: "('k, 'v) Map \<Rightarrow> 'k \<Rightarrow> bool" where
  "Map_has m k = (map_of m k \<noteq> None)"

definition Map_get :: "('k, 'v) Map \<Rightarrow> 'k \<Rightarrow> 'v option" where
  "Map_get m k = map_of m k"

definition Map_set :: "('k, 'v) Map \<Rightarrow> 'k \<Rightarrow> 'v \<Rightarrow> ('k, 'v) Map" where
  "Map_set m k v = AList.update k v m"

definition Map_values :: "('k, 'v) Map \<Rightarrow> 'v list" where
  "Map_values m = map snd m"

text \<open>\<open>m.get(k) || []\<close>\<close>

definition get_or_empty :: "('k, 'v list) Map \<Rightarrow> 'k \<Rightarrow> 'v list" where
  "get_or_empty m k = (case Map_get m k of None \<Rightarrow> [] | Some xs \<Rightarrow> xs)"

text \<open>\<open>Array.from(new Set(xs))\<close>: the distinct elements in the order of their first occurrence.\<close>

fun Set_from :: "'a list \<Rightarrow> 'a list \<Rightarrow> 'a list" where
  "Set_from seen [] = seen"
| "Set_from seen (x # xs) = (if x \<in> set seen then Set_from seen xs else Set_from (seen @ [x]) xs)"

text \<open>
  \<open>xs.sort(cmp)\<close>: a stable sort, here by insertion. An element goes behind the elements
  that the comparison function puts before it, and before every other one; a comparison
  that is \<open>NaN\<close> counts as \<open>0\<close>.
\<close>

fun sort_insert :: "('a \<Rightarrow> 'a \<Rightarrow> number) \<Rightarrow> 'a \<Rightarrow> 'a list \<Rightarrow> 'a list" where
  "sort_insert cmp x [] = [x]"
| "sort_insert cmp x (y # ys) =
     (if num_gt (cmp x y) (Fin 0) then y # sort_insert cmp x ys else x # y # ys)"

definition Array_sort :: "('a \<Rightarrow> 'a \<Rightarrow> number) \<Rightarrow> 'a list \<Rightarrow> 'a list" where
  "Array_sort cmp xs = foldr (sort_insert cmp) xs []"

section \<open>computeResults\<close>

subsection \<open>Grouping the topic responses by dimension\<close>

record DimensionTopic = Ratings +
  topicId :: string
  topicKey :: string

record DimensionGroup =
  dim_id :: string
  dim_title :: string
  dim_order :: int
  dim_topics :: "DimensionTopic list"

text \<open>\<open>x ?? NaN\<close>\<close>

definition or_NaN :: "number option \<Rightarrow> number" where
  "or_NaN x = (case x of None \<Rightarrow> NaN | Some v \<Rightarrow> v)"

definition group_row ::
  "(uuid, DimensionGroup) Map \<Rightarrow> topicResponses_row \<Rightarrow> (uuid, DimensionGroup) Map" where
  "group_row dimensionsMap row =
     (let m = (if \<not> Map_has dimensionsMap (q_dimension_id row)
               then Map_set dimensionsMap (q_dimension_id row)
                      \<lparr>dim_id = q_dimension_id row, dim_title = q_dimension_title row,
                       dim_order = q_order_index row, dim_topics = []\<rparr>
               else dimensionsMap)
      in case Map_get m (q_dimension_id row) of
           None \<Rightarrow> m
         | Some g \<Rightarrow>
             Map_set m (q_dimension_id row)
               (g\<lparr>dim_topics := dim_topics g @
                    [\<lparr>currentRating = or_NaN (toFiniteNumber (q_current_rating row)),
                      targetRating = or_NaN (toFiniteNumber (q_target_rating row)),
                      topicId = q_topic_id row, topicKey = q_topic_key row\<rparr>]\<rparr>))"

definition group_by_dimension :: "topicResponses_row list \<Rightarrow> (uuid, DimensionGroup) Map" where
  "group_by_dimension rows = foldl group_row [] rows"

subsection \<open>Loading the rules of the answered topics\<close>

text \<open>An entry of \<open>recsByTopic\<close>: the row of the query with its bounds and priority converted.\<close>

record TopicRec = Bounds +
  tr_rec_id :: uuid
  tr_rec_topic_id :: uuid
  tr_title :: string
  tr_description :: "string option"
  tr_why :: "string option"
  tr_what :: "string option"
  tr_how :: "string option"
  tr_action_items :: "string list option"
  tr_category :: string
  tr_priority :: number
  tr_tags :: "string list"
  tr_dimension_id :: uuid
  tr_topic_key :: string

definition convert_rec :: "allTopicRecs_row \<Rightarrow> TopicRec" where
  "convert_rec rec =
     \<lparr>score_min = toNullableNumber (a_score_min rec),
      score_max = toNullableNumber (a_score_max rec),
      target_min = toNullableNumber (a_target_min rec),
      target_max = toNullableNumber (a_target_max rec),
      gap_min = toNullableNumber (a_gap_min rec),
      gap_max = toNullableNumber (a_gap_max rec),
      tr_rec_id = a_id rec, tr_rec_topic_id = a_topic_id rec,
      tr_title = a_title rec, tr_description = a_description rec,
      tr_why = a_why rec, tr_what = a_what rec, tr_how = a_how rec,
      tr_action_items = a_action_items rec, tr_category = a_category rec,
      tr_priority = Number (NumberV (Fin (of_int (a_priority rec)))),
      tr_tags = a_tags rec,
      tr_dimension_id = a_dimension_id rec, tr_topic_key = a_topic_key rec\<rparr>"

definition group_rec :: "(uuid, TopicRec list) Map \<Rightarrow> allTopicRecs_row \<Rightarrow> (uuid, TopicRec list) Map" where
  "group_rec recsByTopic rec =
     (let m = (if \<not> Map_has recsByTopic (a_topic_id rec)
               then Map_set recsByTopic (a_topic_id rec) []
               else recsByTopic)
      in case Map_get m (a_topic_id rec) of
           None \<Rightarrow> m
         | Some recs \<Rightarrow> Map_set m (a_topic_id rec) (recs @ [convert_rec rec]))"

definition group_by_topic :: "allTopicRecs_row list \<Rightarrow> (uuid, TopicRec list) Map" where
  "group_by_topic allTopicRecs = foldl group_rec [] allTopicRecs"

subsection \<open>Matching and ranking\<close>

definition recommendation_of :: "TopicRec \<Rightarrow> Recommendation" where
  "recommendation_of rec =
     \<lparr>r_id = tr_rec_id rec, r_title = tr_title rec, r_description = tr_description rec,
      r_why = tr_why rec, r_what = tr_what rec, r_how = tr_how rec,
      r_action_items = (case tr_action_items rec of None \<Rightarrow> [] | Some xs \<Rightarrow> xs),
      r_category = tr_category rec,
      r_priority = Number (NumberV (tr_priority rec)),
      r_tags = tr_tags rec,
      r_topicId = tr_rec_topic_id rec, r_topicKey = tr_topic_key rec\<rparr>"

text \<open>The inner loop: the rules of one topic against the ratings of its response.\<close>

fun match_recs ::
  "(uuid, Recommendation list) Map \<Rightarrow> uuid \<Rightarrow> number \<Rightarrow> number \<Rightarrow> number \<Rightarrow> TopicRec list \<Rightarrow>
   (uuid, Recommendation list) Map" where
  "match_recs matched dimension_id score target g [] = matched"
| "match_recs matched dimension_id score target g (rec # topicRecs) =
     (if \<not> matchesConditions rec score target g
      then match_recs matched dimension_id score target g topicRecs
      else match_recs
             (Map_set matched dimension_id (get_or_empty matched dimension_id @ [recommendation_of rec]))
             dimension_id score target g topicRecs)"

text \<open>The outer loop, for one row: rows without two finite ratings are skipped.\<close>

definition match_row ::
  "(uuid, TopicRec list) Map \<Rightarrow> (uuid, Recommendation list) Map \<Rightarrow> topicResponses_row \<Rightarrow>
   (uuid, Recommendation list) Map" where
  "match_row recsByTopic matched row =
     (case toFiniteNumber (q_current_rating row) of
        None \<Rightarrow> matched
      | Some score \<Rightarrow>
          (case toFiniteNumber (q_target_rating row) of
             None \<Rightarrow> matched
           | Some target \<Rightarrow>
               match_recs matched (q_dimension_id row) score target (matchingGap score target)
                 (get_or_empty recsByTopic (q_topic_id row))))"

definition match_rows ::
  "(uuid, TopicRec list) Map \<Rightarrow> topicResponses_row list \<Rightarrow> (uuid, Recommendation list) Map" where
  "match_rows recsByTopic rows = foldl (match_row recsByTopic) [] rows"

definition by_priority_desc :: "Recommendation \<Rightarrow> Recommendation \<Rightarrow> number" where
  "by_priority_desc a b = num_sub (r_priority b) (r_priority a)"

text \<open>
  The loop over the entries of the map: \<open>recommendations.sort(...).slice(0, 5)\<close> is set as
  the new value of the key. Setting the value of a key that the map has does not change the
  entries that the iteration still visits.
\<close>

definition rank_entry ::
  "(uuid, Recommendation list) Map \<Rightarrow> uuid \<times> Recommendation list \<Rightarrow> (uuid, Recommendation list) Map" where
  "rank_entry matched entry =
     (case entry of
        (dimensionId, recommendations) \<Rightarrow>
          Map_set matched dimensionId (take 5 (Array_sort by_priority_desc recommendations)))"

definition rank_recommendations ::
  "(uuid, Recommendation list) Map \<Rightarrow> (uuid, Recommendation list) Map" where
  "rank_recommendations matched = foldl rank_entry matched matched"

subsection \<open>Dimension metrics, ranks and the rows to write\<close>

record CalculatedDimension = DimensionMetrics +
  cd_id :: string
  cd_title :: string
  cd_order :: int
  cd_topics :: "DimensionTopic list"
  priorityScore :: number

definition calculate_dimension :: "DimensionGroup \<Rightarrow> CalculatedDimension" where
  "calculate_dimension d =
     (let m = calculateDimensionMetrics (dim_topics d);
          p = calculatePriorityScore (m_gap m) (Fin 1)
      in \<lparr>m_score = m_score m, m_gap = m_gap m,
          cd_id = dim_id d, cd_title = dim_title d, cd_order = dim_order d,
          cd_topics = dim_topics d, priorityScore = p\<rparr>)"

definition by_priorityScore_desc :: "CalculatedDimension \<Rightarrow> CalculatedDimension \<Rightarrow> number" where
  "by_priorityScore_desc a b = num_sub (priorityScore b) (priorityScore a)"

definition calculate_dimensions :: "(uuid, DimensionGroup) Map \<Rightarrow> CalculatedDimension list" where
  "calculate_dimensions dimensionsMap =
     Array_sort by_priorityScore_desc (map calculate_dimension (Map_values dimensionsMap))"

text \<open>The loop over the sorted dimensions from index \<open>i\<close>: one row of values each, rank \<open>i + 1\<close>.\<close>

fun priority_values ::
  "uuid \<Rightarrow> timestamp \<Rightarrow> (uuid, Recommendation list) Map \<Rightarrow> nat \<Rightarrow> CalculatedDimension list \<Rightarrow>
   computed_priorities_row list" where
  "priority_values responseId now matched i [] = []"
| "priority_values responseId now matched i (d # ds) =
     \<lparr>cp_response_id = responseId, cp_dimension_id = cd_id d,
      cp_dimension_score = m_score d, cp_dimension_gap = m_gap d,
      cp_priority_score = priorityScore d, cp_rank_order = i + 1,
      cp_recommendations = get_or_empty matched (cd_id d),
      cp_computed_at = now\<rparr>
     # priority_values responseId now matched (i + 1) ds"

subsection \<open>The whole operation\<close>

record ResultDimension =
  res_dimensionId :: string
  res_title :: string
  res_score :: number
  res_gap :: number
  res_priorityScore :: number

record Results =
  res_overallScore :: number
  res_overallGap :: number
  res_dimensions :: "ResultDimension list"

definition result_dimension :: "CalculatedDimension \<Rightarrow> ResultDimension" where
  "result_dimension d =
     \<lparr>res_dimensionId = cd_id d, res_title = cd_title d, res_score = m_score d,
      res_gap = m_gap d, res_priorityScore = priorityScore d\<rparr>"

text \<open>
  The values that one run derives from what it reads: the rows of the first query, the sorted
  dimensions and the ranked recommendations of each dimension.
\<close>

definition topicIds_of :: "topicResponses_row list \<Rightarrow> uuid list" where
  "topicIds_of rows = Set_from [] (map q_topic_id rows)"

definition recsByTopic_of :: "database \<Rightarrow> topicResponses_row list \<Rightarrow> (uuid, TopicRec list) Map" where
  "recsByTopic_of db rows =
     (if length (topicIds_of rows) > 0
      then group_by_topic (select_topic_recs db (topicIds_of rows))
      else [])"

definition matchedRecommendationsByDimension ::
  "database \<Rightarrow> topicResponses_row list \<Rightarrow> (uuid, Recommendation list) Map" where
  "matchedRecommendationsByDimension db rows =
     rank_recommendations (match_rows (recsByTopic_of db rows) rows)"

definition calculatedDimensions :: "topicResponses_row list \<Rightarrow> CalculatedDimension list" where
  "calculatedDimensions rows = calculate_dimensions (group_by_dimension rows)"

text \<open>
  The body of the \<open>try\<close> block, statement by statement. It returns the connection as the
  statements left it, with the error of the first statement that failed or with the result.
\<close>

definition try_block ::
  "(statement \<Rightarrow> bool) \<Rightarrow> timestamp \<Rightarrow> uuid \<Rightarrow> connection \<Rightarrow> connection \<times> (error + Results)" where
  "try_block fails now responseId c0 =
     (if fails BEGIN then (c0, Inl (DatabaseError BEGIN))
      else
        let c1 = exec_BEGIN c0 in
        if fails SELECT_TOPIC_RESPONSES then (c1, Inl (DatabaseError SELECT_TOPIC_RESPONSES))
        else
          let rows = select_topic_responses (snapshot c1) responseId in
          if length (topicIds_of rows) > 0 \<and> fails SELECT_TOPIC_RECS
          then (c1, Inl (DatabaseError SELECT_TOPIC_RECS))
          else
            let matched = matchedRecommendationsByDimension (snapshot c1) rows;
                dims = calculatedDimensions rows
            in
              if length dims > 0 \<and> fails INSERT_PRIORITIES
              then (c1, Inl (DatabaseError INSERT_PRIORITIES))
              else
                let c2 = (if length dims > 0
                          then exec_write
                                 (insert_priorities (priority_values responseId now matched 0 dims)) c1
                          else c1);
                    overall = calculateOverallMetrics dims
                in
                  if fails UPDATE_RESPONSE then (c2, Inl (DatabaseError UPDATE_RESPONSE))
                  else
                    let c3 = exec_write
                               (update_response now responseId
                                  (overallScore overall) (overallGap overall)) c2
                    in
                      if fails COMMIT then (c3, Inl (DatabaseError COMMIT))
                      else (exec_COMMIT c3,
                            Inr \<lparr>res_overallScore = overallScore overall,
                                 res_overallGap = overallGap overall,
                                 res_dimensions = map result_dimension dims\<rparr>))"

text \<open>
  \<open>computeResults\<close>: take a connection, run the \<open>try\<close> block, and on an error send
  \<open>ROLLBACK\<close> and throw the error again. The result is the database that the other sessions
  observe afterwards, with the error or the returned value. Taking the connection happens
  before the \<open>try\<close> block; releasing it in the \<open>finally\<close> block and the log lines do not
  touch the database and are left out.
\<close>

definition computeResults ::
  "(statement \<Rightarrow> bool) \<Rightarrow> timestamp \<Rightarrow> database \<Rightarrow> uuid \<Rightarrow> database \<times> (error + Results)" where
  "computeResults fails now db responseId =
     (if fails GET_CLIENT then (db, Inl (DatabaseError GET_CLIENT))
      else
        let client = \<lparr>committed = db, transaction = None\<rparr> in
        case try_block fails now responseId client of
          (c, Inr result) \<Rightarrow> (committed c, Inr result)
        | (c, Inl e) \<Rightarrow> (committed (exec_ROLLBACK c), Inl e))"

subsection \<open>Notions for stating the claims\<close>

text \<open>The rows of values that a run on \<open>db\<close> hands to the \<open>INSERT\<close> statement.\<close>

definition priorities_written :: "timestamp \<Rightarrow> database \<Rightarrow> uuid \<Rightarrow> computed_priorities_row list" where
  "priorities_written now db responseId =
     (let rows = select_topic_responses db responseId
      in priority_values responseId now (matchedRecommendationsByDimension db rows) 0
           (calculatedDimensions rows))"

text \<open>The overall metrics that a run on \<open>db\<close> computes.\<close>

definition overall_of :: "database \<Rightarrow> uuid \<Rightarrow> OverallMetrics" where
  "overall_of db responseId =
     calculateOverallMetrics (calculatedDimensions (select_topic_responses db responseId))"

text \<open>
  The statements that a run on \<open>db\<close> sends when no earlier statement has failed: the second
  query only for a non-empty list of topics, the \<open>INSERT\<close> only for a non-empty list of
  dimensions, the others always.
\<close>

definition statement_sent :: "database \<Rightarrow> uuid \<Rightarrow> statement \<Rightarrow> bool" where
  "statement_sent db responseId s =
     (case s of
        SELECT_TOPIC_RECS \<Rightarrow> length (topicIds_of (select_topic_responses db responseId)) > 0
      | INSERT_PRIORITIES \<Rightarrow> length (calculatedDimensions (select_topic_responses db responseId)) > 0
      | _ \<Rightarrow> True)"

text \<open>\<open>SELECT * FROM computed_priorities WHERE response_id = $1 AND dimension_id = $2\<close>\<close>

definition priority_row :: "database \<Rightarrow> uuid \<Rightarrow> uuid \<Rightarrow> computed_priorities_row option" where
  "priority_row db responseId dimensionId =
     find (\<lambda>p. cp_response_id p = responseId \<and> cp_dimension_id p = dimensionId)
       (db_computed_priorities db)"

text \<open>\<open>SELECT * FROM assessment_responses WHERE id = $1\<close>\<close>

definition response_row :: "database \<Rightarrow> uuid \<Rightarrow> assessment_responses_row option" where
  "response_row db responseId = find (\<lambda>r. ar_id r = responseId) (db_assessment_responses db)"

subsection \<open>A small store for the examples\<close>

text \<open>
  Response \<open>r1\<close> answers three topics of two dimensions; topic \<open>t3\<close> is rated above its
  target. Rule \<open>C\<close> is inactive; rules \<open>A\<close> and \<open>F\<close> have the same priority.
\<close>

definition example_rule ::
  "uuid \<Rightarrow> uuid \<Rightarrow> unknown \<Rightarrow> unknown \<Rightarrow> unknown \<Rightarrow> int \<Rightarrow> bool \<Rightarrow> int \<Rightarrow> topic_recommendations_row" where
  "example_rule i t smax gmin gmax p act ord =
     \<lparr>rec_id = i, rec_topic_id = t, rec_score_min = Null, rec_score_max = smax,
      rec_target_min = Null, rec_target_max = Null, rec_gap_min = gmin, rec_gap_max = gmax,
      rec_title = i, rec_description = None, rec_why = None, rec_what = None, rec_how = None,
      rec_action_items = Some [], rec_category = ''Project'', rec_priority = p, rec_tags = [],
      rec_is_active = act, rec_order_index = ord\<rparr>"

definition example_db :: database where
  "example_db =
     \<lparr>db_topic_responses =
        [\<lparr>tr_id = ''a3'', tr_response_id = ''r1'', tr_topic_id = ''t3'',
          tr_current_rating = StringV ''4.00'', tr_target_rating = StringV ''2.00''\<rparr>,
         \<lparr>tr_id = ''a1'', tr_response_id = ''r1'', tr_topic_id = ''t1'',
          tr_current_rating = StringV ''2.00'', tr_target_rating = StringV ''4.00''\<rparr>,
         \<lparr>tr_id = ''a2'', tr_response_id = ''r1'', tr_topic_id = ''t2'',
          tr_current_rating = StringV ''3.00'', tr_target_rating = StringV ''4.00''\<rparr>],
      db_topics =
        [\<lparr>t_id = ''t1'', t_dimension_id = ''d1'', t_topic_key = ''k1'', t_order_index = 1\<rparr>,
         \<lparr>t_id = ''t2'', t_dimension_id = ''d1'', t_topic_key = ''k2'', t_order_index = 2\<rparr>,
         \<lparr>t_id = ''t3'', t_dimension_id = ''d2'', t_topic_key = ''k3'', t_order_index = 1\<rparr>],
      db_dimensions =
        [\<lparr>d_id = ''d2'', d_title = ''Data'', d_order_index = 1\<rparr>,
         \<lparr>d_id = ''d1'', d_title = ''Strategy'', d_order_index = 2\<rparr>],
      db_topic_recommendations =
        [example_rule ''A'' ''t1'' (StringV ''2.5'') (StringV ''0.5'') Null 70 True 0,
         example_rule ''B'' ''t2'' Null Null Null 90 True 0,
         example_rule ''C'' ''t1'' Null Null Null 80 False 0,
         example_rule ''D'' ''t3'' Null (StringV ''0.5'') Null 60 True 0,
         example_rule ''E'' ''t3'' Null Null (StringV ''1.0'') 50 True 0,
         example_rule ''F'' ''t2'' Null Null Null 70 True 1],
      db_computed_priorities = [],
      db_assessment_responses =
        [\<lparr>ar_id = ''r1'', ar_status = ''in_progress'', ar_completed_at = None,
          ar_last_updated_at = None, ar_overall_score = None, ar_overall_gap = None\<rparr>,
         \<lparr>ar_id = ''r2'', ar_status = ''in_progress'', ar_completed_at = None,
          ar_last_updated_at = None, ar_overall_score = None, ar_overall_gap = None\<rparr>]\<rparr>"

subsection \<open>Further notions for stating the claims\<close>

text \<open>
  The recommendations that the loop over the rules pushes for one row, and those that the
  loop over the rows pushes for one dimension, in the order in which they are pushed.
\<close>

definition row_matches :: "(uuid, TopicRec list) Map \<Rightarrow> topicResponses_row \<Rightarrow> Recommendation list" where
  "row_matches recsByTopic row =
     get_or_empty (match_row recsByTopic [] row) (q_dimension_id row)"

definition dimension_matches ::
  "(uuid, TopicRec list) Map \<Rightarrow> topicResponses_row list \<Rightarrow> uuid \<Rightarrow> Recommendation list" where
  "dimension_matches recsByTopic rows dimensionId =
     concat (map (row_matches recsByTopic) (filter (\<lambda>row. q_dimension_id row = dimensionId) rows))"

text \<open>A row of \<open>computed_priorities\<close> without its time of computation.\<close>

definition without_computed_at :: "computed_priorities_row \<Rightarrow> computed_priorities_row" where
  "without_computed_at p = p\<lparr>cp_computed_at := 0\<rparr>"

text \<open>The columns of the uniqueness constraint of \<open>computed_priorities\<close>.\<close>

definition priority_key :: "computed_priorities_row \<Rightarrow> uuid \<times> uuid" where
  "priority_key p = (cp_response_id p, cp_dimension_id p)"

section \<open>Properties of the pure functions\<close>

subsection \<open>Numbers\<close>

lemma isFinite_iff: "isFinite n \<longleftrightarrow> (\<exists>x. n = Fin x)"
  by (cases n) simp_all

lemma finite_value_Fin [simp]: "finite_value (Fin x) = x"
  by (simp add: finite_value_def)



lemma toNullableNumber_isFinite: "toNullableNumber v = Some n \<Longrightarrow> isFinite n"
  by (cases v) (auto simp: Let_def split: if_splits)

lemma toNullableNumber_finite: "toNullableNumber v = Some n \<Longrightarrow> \<exists>x. n = Fin x"
  using toNullableNumber_isFinite [of v n] by (simp add: isFinite_iff)

lemma round2_hundredth: "\<exists>n::int. round2 x = of_int n / 100"
proof (cases "x < 0")
  case True
  then have "round2 x = of_int (- \<lfloor>- x * 100 + 1 / 2\<rfloor>) / 100"
    by (simp add: round2_def)
  then show ?thesis by blast
next
  case False
  then have "round2 x = of_int \<lfloor>x * 100 + 1 / 2\<rfloor> / 100"
    by (simp add: round2_def)
  then show ?thesis by blast
qed

lemma round2_close: "\<bar>round2 x - x\<bar> \<le> 1 / 200"
proof -
  have near: "\<bar>of_int \<lfloor>y * 100 + 1 / 2\<rfloor> / 100 - y\<bar> \<le> 1 / 200" for y :: rat
  proof -
    define k where "k = \<lfloor>y * 100 + 1 / 2\<rfloor>"
    have "of_int k \<le> y * 100 + 1 / 2" and "y * 100 + 1 / 2 < of_int k + 1"
      unfolding k_def by linarith+
    then have "\<bar>of_int k / 100 - y\<bar> \<le> 1 / 200"
      by linarith
    then show ?thesis by (simp add: k_def)
  qed
  show ?thesis
  proof (cases "x < 0")
    case True
    have "\<bar>round2 x - x\<bar> = \<bar>of_int \<lfloor>(- x) * 100 + 1 / 2\<rfloor> / 100 - (- x)\<bar>"
      using True by (simp add: round2_def abs_minus_commute add.commute)
    then show ?thesis using near [of "- x"] by simp
  next
    case False
    then show ?thesis using near [of x] by (simp add: round2_def)
  qed
qed

lemma round2_nonneg: "0 \<le> x \<Longrightarrow> 0 \<le> round2 x"
  by (simp add: round2_def)

lemma round2_zero [simp]: "round2 0 = 0"
proof -
  have "\<lfloor>(1::rat) / 2\<rfloor> = 0" by linarith
  then show ?thesis by (simp add: round2_def)
qed

subsection \<open>Dimension and overall aggregates\<close>

lemma normalizedGap_finite:
  "normalizedGap (calculateTopicGap (Fin c) (Fin t)) = Fin (max (t - c) 0)"
  by (simp add: calculateTopicGap_def Let_def max_def)

lemma dimension_loop_finite:
  "dimension_loop (Fin a, Fin b, n) topics =
     (Fin (a + sum_list (map (\<lambda>t. finite_value (currentRating t)) (spec_valid_pairs topics))),
      Fin (b + sum_list (map spec_normalized_gap (spec_valid_pairs topics))),
      n + length (spec_valid_pairs topics))"
proof (induction topics arbitrary: a b n)
  case Nil
  then show ?case by (simp add: spec_valid_pairs_def)
next
  case (Cons topic topics)
  show ?case
  proof (cases "isFinite (currentRating topic) \<and> isFinite (targetRating topic)")
    case True
    then obtain c t where ct: "currentRating topic = Fin c" "targetRating topic = Fin t"
      by (auto simp: isFinite_iff)
    have head: "spec_normalized_gap topic = max (t - c) 0"
      using ct by (simp add: spec_normalized_gap_def)
    have "dimension_loop (Fin a, Fin b, n) (topic # topics) =
            dimension_loop (Fin (a + c), Fin (b + max (t - c) 0), n + 1) topics"
      using ct by (simp add: normalizedGap_finite)
    also have "\<dots> =
       (Fin (a + c + sum_list (map (\<lambda>t. finite_value (currentRating t)) (spec_valid_pairs topics))),
        Fin (b + max (t - c) 0 + sum_list (map spec_normalized_gap (spec_valid_pairs topics))),
        n + 1 + length (spec_valid_pairs topics))"
      by (rule Cons.IH)
    finally show ?thesis
      using ct head by (simp add: spec_valid_pairs_def)
  next
    case False
    then have "dimension_loop (Fin a, Fin b, n) (topic # topics) =
                 dimension_loop (Fin a, Fin b, n) topics"
      by auto
    then show ?thesis
      using False Cons.IH [of a b n] by (simp add: spec_valid_pairs_def)
  qed
qed

lemma calculateDimensionMetrics_finite:
  "\<exists>s g. calculateDimensionMetrics topics = \<lparr>m_score = Fin s, m_gap = Fin g\<rparr> \<and> 0 \<le> g"
proof -
  have nn: "0 \<le> sum_list (map spec_normalized_gap (spec_valid_pairs topics))"
    by (rule sum_list_nonneg) (auto simp: spec_normalized_gap_def)
  show ?thesis
    using dimension_loop_finite [of 0 0 0 topics] nn
    by (auto simp: calculateDimensionMetrics_def intro!: round2_nonneg divide_nonneg_nonneg)
qed



section \<open>Claims about the pure functions\<close>

text \<open>
  C7. For every pair of ratings, \<open>calculateTopicGap\<close> returns \<open>gap = target - current\<close> and
  \<open>normalizedGap = gap\<close> when \<open>gap > 0\<close> and \<open>0\<close> otherwise, which for finite ratings is
  \<open>max (target - current) 0\<close>. The function is a total function of its two arguments: it reads
  and writes no state and has no error result.
\<close>

theorem calculateTopicGap_correct:
  "gap (calculateTopicGap current target) = num_sub target current \<and>
   normalizedGap (calculateTopicGap current target) =
     (if num_gt (num_sub target current) (Fin 0) then num_sub target current else Fin 0) \<and>
   calculateTopicGap (Fin c) (Fin t) = \<lparr>gap = Fin (t - c), normalizedGap = Fin (max (t - c) 0)\<rparr>"
  by (simp add: calculateTopicGap_def Let_def max_def)

theorem calculateTopicGap_correct_witness:
  "calculateTopicGap (Fin 2) (Fin 4) = \<lparr>gap = Fin 2, normalizedGap = Fin 2\<rparr> \<and>
   calculateTopicGap (Fin 4) (Fin 2) = \<lparr>gap = Fin (- 2), normalizedGap = Fin 0\<rparr>"
  using calculateTopicGap_correct [of "Fin 2" "Fin 4" 2 4]
    calculateTopicGap_correct [of "Fin 4" "Fin 2" 4 2]
  by simp





section \<open>Properties of the transaction\<close>

lemma snapshot_begin [simp]:
  "snapshot (exec_BEGIN \<lparr>committed = db, transaction = None\<rparr>) = db"
  by (simp add: snapshot_def exec_BEGIN_def)

lemma committed_begin [simp]: "committed (exec_BEGIN c) = committed c"
  by (simp add: exec_BEGIN_def)

lemma transaction_begin [simp]: "transaction (exec_BEGIN c) = Some (committed c)"
  by (simp add: exec_BEGIN_def)

lemma exec_write_open:
  "transaction c = Some w \<Longrightarrow> exec_write f c = c\<lparr>transaction := Some (f w)\<rparr>"
  by (simp add: exec_write_def)

lemma committed_rollback [simp]: "committed (exec_ROLLBACK c) = committed c"
  by (simp add: exec_ROLLBACK_def)

lemma insert_priorities_Nil [simp]: "insert_priorities [] db = db"
  by (simp add: insert_priorities_def)

lemma try_block_Inl:
  assumes "try_block fails now responseId \<lparr>committed = db, transaction = None\<rparr> = (c, Inl e)"
  shows "committed c = db"
  using assms
  by (auto simp: try_block_def Let_def exec_write_open split: if_splits)

lemma try_block_Inr:
  assumes "try_block fails now responseId \<lparr>committed = db, transaction = None\<rparr> = (c, Inr res)"
  shows "committed c =
           update_response now responseId
             (overallScore (overall_of db responseId)) (overallGap (overall_of db responseId))
             (insert_priorities (priorities_written now db responseId) db)"
    and "res = \<lparr>res_overallScore = overallScore (overall_of db responseId),
                res_overallGap = overallGap (overall_of db responseId),
                res_dimensions =
                  map result_dimension (calculatedDimensions (select_topic_responses db responseId))\<rparr>"
  using assms
  by (auto simp: try_block_def Let_def exec_write_open exec_COMMIT_def priorities_written_def
      overall_of_def split: if_splits)

lemma try_block_no_failure:
  assumes "\<And>s. statement_sent db responseId s \<Longrightarrow> \<not> fails s"
  shows "\<exists>c res. try_block fails now responseId \<lparr>committed = db, transaction = None\<rparr> = (c, Inr res)"
proof -
  have "\<not> fails BEGIN" "\<not> fails SELECT_TOPIC_RESPONSES" "\<not> fails UPDATE_RESPONSE" "\<not> fails COMMIT"
    using assms by (simp_all add: statement_sent_def)
  moreover have "length (topicIds_of (select_topic_responses db responseId)) > 0 \<Longrightarrow>
                 \<not> fails SELECT_TOPIC_RECS"
    using assms [of SELECT_TOPIC_RECS] by (simp add: statement_sent_def)
  moreover have "length (calculatedDimensions (select_topic_responses db responseId)) > 0 \<Longrightarrow>
                 \<not> fails INSERT_PRIORITIES"
    using assms [of INSERT_PRIORITIES] by (simp add: statement_sent_def)
  ultimately show ?thesis
    by (auto simp: try_block_def Let_def)
qed

lemma try_block_failure:
  assumes "fails s" and "statement_sent db responseId s" and "s \<noteq> GET_CLIENT"
  shows "\<exists>c e. try_block fails now responseId \<lparr>committed = db, transaction = None\<rparr> = (c, Inl e)"
  using assms
  by (cases s) (auto simp: try_block_def Let_def statement_sent_def)

lemma computeResults_Inl:
  assumes "computeResults fails now db responseId = (db', Inl e)"
  shows "db' = db"
proof (cases "fails GET_CLIENT")
  case True
  then show ?thesis using assms by (simp add: computeResults_def)
next
  case False
  obtain c out where t: "try_block fails now responseId \<lparr>committed = db, transaction = None\<rparr> = (c, out)"
    by (cases "try_block fails now responseId \<lparr>committed = db, transaction = None\<rparr>")
  show ?thesis
  proof (cases out)
    case (Inl e')
    then have "committed c = db" using t try_block_Inl by blast
    then show ?thesis using assms False t Inl by (simp add: computeResults_def)
  next
    case (Inr r)
    then show ?thesis using assms False t by (simp add: computeResults_def)
  qed
qed

lemma computeResults_Inr:
  assumes "computeResults fails now db responseId = (db', Inr res)"
  shows "db' =
           update_response now responseId
             (overallScore (overall_of db responseId)) (overallGap (overall_of db responseId))
             (insert_priorities (priorities_written now db responseId) db)"
    and "res = \<lparr>res_overallScore = overallScore (overall_of db responseId),
                res_overallGap = overallGap (overall_of db responseId),
                res_dimensions =
                  map result_dimension (calculatedDimensions (select_topic_responses db responseId))\<rparr>"
proof -
  have nf: "\<not> fails GET_CLIENT"
    using assms by (auto simp: computeResults_def)
  obtain c out where t: "try_block fails now responseId \<lparr>committed = db, transaction = None\<rparr> = (c, out)"
    by (cases "try_block fails now responseId \<lparr>committed = db, transaction = None\<rparr>")
  have "out = Inr res \<and> db' = committed c"
    using assms nf t by (cases out) (auto simp: computeResults_def)
  then have t': "try_block fails now responseId \<lparr>committed = db, transaction = None\<rparr> = (c, Inr res)"
    and d: "db' = committed c"
    using t by simp_all
  show "db' =
           update_response now responseId
             (overallScore (overall_of db responseId)) (overallGap (overall_of db responseId))
             (insert_priorities (priorities_written now db responseId) db)"
    using try_block_Inr(1) [OF t'] d by simp
  show "res = \<lparr>res_overallScore = overallScore (overall_of db responseId),
                res_overallGap = overallGap (overall_of db responseId),
                res_dimensions =
                  map result_dimension (calculatedDimensions (select_topic_responses db responseId))\<rparr>"
    using try_block_Inr(2) [OF t'] .
qed

lemma computeResults_no_failure:
  assumes "\<And>s. statement_sent db responseId s \<Longrightarrow> \<not> fails s"
  shows "\<exists>db' res. computeResults fails now db responseId = (db', Inr res)"
proof -
  have nf: "\<not> fails GET_CLIENT" using assms by (simp add: statement_sent_def)
  have "\<exists>c res. try_block fails now responseId \<lparr>committed = db, transaction = None\<rparr> = (c, Inr res)"
    by (rule try_block_no_failure) (rule assms)
  then obtain c res
    where "try_block fails now responseId \<lparr>committed = db, transaction = None\<rparr> = (c, Inr res)"
    by blast
  then show ?thesis using nf by (simp add: computeResults_def)
qed

section \<open>Claims about the transaction\<close>

lemma select_topic_responses_none:
  assumes "\<forall>tr\<in>set (db_topic_responses db). tr_response_id tr \<noteq> responseId"
  shows "select_topic_responses db responseId = []"
proof -
  have "join_topic_responses db responseId = []"
    unfolding join_topic_responses_def
    using assms by (simp add: concat_eq_Nil_conv) auto
  then show ?thesis by (simp add: select_topic_responses_def)
qed

lemma find_map_completed:
  "find (\<lambda>r. ar_id r = k)
     (map (\<lambda>r. if ar_id r = responseId
                then r\<lparr>ar_status := st, ar_completed_at := ca,
                       ar_overall_score := os, ar_overall_gap := og,
                       ar_last_updated_at := lu\<rparr>
                else r) rs) =
   (if k = responseId
    then map_option (\<lambda>r. r\<lparr>ar_status := st, ar_completed_at := ca,
                         ar_overall_score := os, ar_overall_gap := og,
                         ar_last_updated_at := lu\<rparr>)
           (find (\<lambda>r. ar_id r = k) rs)
    else find (\<lambda>r. ar_id r = k) rs)"
  by (induction rs) auto

lemma response_row_update_response:
  "response_row (update_response now responseId s g db) k =
     (if k = responseId
      then map_option (\<lambda>r. r\<lparr>ar_status := ''completed'', ar_completed_at := Some now,
                              ar_overall_score := Some s, ar_overall_gap := Some g,
                              ar_last_updated_at := Some now\<rparr>)
             (response_row db k)
      else response_row db k)"
  unfolding response_row_def update_response_def
  by (simp add: find_map_completed)

lemma computed_priorities_update_response:
  "db_computed_priorities (update_response now responseId s g db) = db_computed_priorities db"
  by (simp add: update_response_def)

text \<open>
  C3. If a statement that \<open>computeResults\<close> sends fails, the caller receives an error and the
  database that other sessions observe is the one from before the call: the rows of
  \<open>computed_priorities\<close> and the row of the response are what they were, so a response that was
  \<open>in_progress\<close> without computed priorities still is.
\<close>

theorem computeResults_atomic:
  assumes "fails s" and "statement_sent db responseId s"
  shows "(\<exists>e. computeResults fails now db responseId = (db, Inl e)) \<and>
         (\<forall>d. priority_row (fst (computeResults fails now db responseId)) responseId d =
               priority_row db responseId d) \<and>
         response_row (fst (computeResults fails now db responseId)) responseId =
           response_row db responseId"
proof -
  have "\<exists>e. computeResults fails now db responseId = (db, Inl e)"
  proof (cases "fails GET_CLIENT")
    case True
    then show ?thesis by (simp add: computeResults_def)
  next
    case False
    then have "s \<noteq> GET_CLIENT" using assms(1) by auto
    then obtain c e
      where t: "try_block fails now responseId \<lparr>committed = db, transaction = None\<rparr> = (c, Inl e)"
      using try_block_failure [of fails s db responseId now] assms by blast
    then have "committed c = db" by (rule try_block_Inl)
    then show ?thesis using False t by (simp add: computeResults_def)
  qed
  then show ?thesis by auto
qed

theorem computeResults_atomic_witness:
  "(\<exists>e. computeResults (\<lambda>s. s = UPDATE_RESPONSE) 7 example_db ''r1'' = (example_db, Inl e)) \<and>
   priority_row (fst (computeResults (\<lambda>s. s = UPDATE_RESPONSE) 7 example_db ''r1'')) ''r1'' ''d1'' = None \<and>
   map_option ar_status
     (response_row (fst (computeResults (\<lambda>s. s = UPDATE_RESPONSE) 7 example_db ''r1'')) ''r1'') =
     Some ''in_progress''"
proof -
  have s: "statement_sent example_db ''r1'' UPDATE_RESPONSE"
    by (simp add: statement_sent_def)
  have p: "priority_row example_db ''r1'' ''d1'' = None"
    by (simp add: priority_row_def example_db_def)
  have r: "map_option ar_status (response_row example_db ''r1'') = Some ''in_progress''"
    by (simp add: response_row_def example_db_def)
  show ?thesis
    using computeResults_atomic [of "\<lambda>s. s = UPDATE_RESPONSE" UPDATE_RESPONSE example_db "''r1''" 7] s p r
    by simp
qed

text \<open>
  C10. For a response without topic responses, \<open>computeResults\<close> sends neither the second
  query nor the \<open>INSERT\<close>; when the statements it does send succeed, it returns overall score
  0, overall gap 0 and no dimensions, leaves \<open>computed_priorities\<close> as it was, and has run
  the final \<open>UPDATE\<close>: a row of that response is now \<open>completed\<close> with both overall fields 0.
\<close>

theorem computeResults_no_answers:
  assumes "\<forall>tr\<in>set (db_topic_responses db). tr_response_id tr \<noteq> responseId"
    and "\<not> fails GET_CLIENT" and "\<not> fails BEGIN" and "\<not> fails SELECT_TOPIC_RESPONSES"
    and "\<not> fails UPDATE_RESPONSE" and "\<not> fails COMMIT"
  shows "computeResults fails now db responseId =
           (update_response now responseId (Fin 0) (Fin 0) db,
            Inr \<lparr>res_overallScore = Fin 0, res_overallGap = Fin 0, res_dimensions = []\<rparr>) \<and>
         db_computed_priorities (fst (computeResults fails now db responseId)) =
           db_computed_priorities db \<and>
         response_row (fst (computeResults fails now db responseId)) responseId =
           map_option (\<lambda>r. r\<lparr>ar_status := ''completed'', ar_completed_at := Some now,
                             ar_overall_score := Some (Fin 0), ar_overall_gap := Some (Fin 0),
                             ar_last_updated_at := Some now\<rparr>)
             (response_row db responseId)"
proof -
  have rows: "select_topic_responses db responseId = []"
    using assms(1) by (rule select_topic_responses_none)
  have dims: "calculatedDimensions [] = []"
    by (simp add: calculatedDimensions_def calculate_dimensions_def group_by_dimension_def
        Map_values_def Array_sort_def)
  have ids: "topicIds_of [] = []"
    by (simp add: topicIds_of_def)
  have run: "computeResults fails now db responseId =
           (update_response now responseId (Fin 0) (Fin 0) db,
            Inr \<lparr>res_overallScore = Fin 0, res_overallGap = Fin 0, res_dimensions = []\<rparr>)"
    using assms(2-6) rows dims ids
    by (simp add: computeResults_def try_block_def Let_def calculateOverallMetrics_def
        exec_write_open exec_COMMIT_def)
  show ?thesis
    using run by (simp add: response_row_update_response computed_priorities_update_response)
qed

theorem computeResults_no_answers_witness:
  "computeResults (\<lambda>s. False) 7 example_db ''r2'' =
     (update_response 7 ''r2'' (Fin 0) (Fin 0) example_db,
      Inr \<lparr>res_overallScore = Fin 0, res_overallGap = Fin 0, res_dimensions = []\<rparr>) \<and>
   db_computed_priorities (fst (computeResults (\<lambda>s. False) 7 example_db ''r2'')) = [] \<and>
   response_row (fst (computeResults (\<lambda>s. False) 7 example_db ''r2'')) ''r2'' =
     Some \<lparr>ar_id = ''r2'', ar_status = ''completed'', ar_completed_at = Some 7,
           ar_last_updated_at = Some 7, ar_overall_score = Some (Fin 0),
           ar_overall_gap = Some (Fin 0)\<rparr>"
proof -
  have h: "\<forall>tr\<in>set (db_topic_responses example_db). tr_response_id tr \<noteq> ''r2''"
    by (simp add: example_db_def)
  have c: "db_computed_priorities example_db = []"
    by (simp add: example_db_def)
  have r: "response_row example_db ''r2'' =
             Some \<lparr>ar_id = ''r2'', ar_status = ''in_progress'', ar_completed_at = None,
                   ar_last_updated_at = None, ar_overall_score = None, ar_overall_gap = None\<rparr>"
    by (simp add: response_row_def example_db_def)
  show ?thesis
    using computeResults_no_answers [of example_db "''r2''" "\<lambda>s. False" 7, OF h] c r
    by (simp add: response_row_update_response computed_priorities_update_response)
qed

section \<open>Claims about the gap used for matching\<close>





section \<open>Properties of maps and sorting\<close>

lemma Map_get_set: "Map_get (Map_set m k v) k' = (if k' = k then Some v else Map_get m k')"
  by (simp add: Map_get_def Map_set_def update_conv')

lemma get_or_empty_set:
  "get_or_empty (Map_set m k v) k' = (if k' = k then v else get_or_empty m k')"
  by (simp add: get_or_empty_def Map_get_set)

lemma get_or_empty_Nil [simp]: "get_or_empty [] k = []"
  by (simp add: get_or_empty_def Map_get_def)

lemma Map_has_get: "Map_has m k \<longleftrightarrow> Map_get m k \<noteq> None"
  by (simp add: Map_has_def Map_get_def)

lemma Array_sort_Nil [simp]: "Array_sort cmp [] = []"
  by (simp add: Array_sort_def)

lemma Array_sort_Cons: "Array_sort cmp (x # xs) = sort_insert cmp x (Array_sort cmp xs)"
  by (simp add: Array_sort_def)

lemma sort_insert_insort:
  assumes "\<forall>z\<in>set (x # ys). isFinite (key z)"
  shows "sort_insert (\<lambda>a b. num_sub (key b) (key a)) x ys =
           insort_key (\<lambda>z. - finite_value (key z)) x ys"
  using assms
proof (induction ys)
  case Nil
  then show ?case by simp
next
  case (Cons y ys)
  obtain p q where pq: "key x = Fin p" "key y = Fin q"
    using Cons.prems by (auto simp: isFinite_iff)
  have "sort_insert (\<lambda>a b. num_sub (key b) (key a)) x ys =
           insort_key (\<lambda>z. - finite_value (key z)) x ys"
    using Cons.prems by (intro Cons.IH) simp
  then show ?case using pq by auto
qed

text \<open>
  With finite keys, sorting by the comparison function \<open>key b - key a\<close> is the stable
  insertion sort of the library by descending key.
\<close>

lemma Array_sort_sort_key:
  assumes "\<forall>z\<in>set xs. isFinite (key z)"
  shows "Array_sort (\<lambda>a b. num_sub (key b) (key a)) xs = sort_key (\<lambda>z. - finite_value (key z)) xs"
  using assms
proof (induction xs)
  case Nil
  then show ?case by simp
next
  case (Cons x xs)
  have ih: "Array_sort (\<lambda>a b. num_sub (key b) (key a)) xs =
              sort_key (\<lambda>z. - finite_value (key z)) xs"
    using Cons.prems by (intro Cons.IH) simp
  have "\<forall>z\<in>set (x # sort_key (\<lambda>z. - finite_value (key z)) xs). isFinite (key z)"
    using Cons.prems by simp
  then show ?case
    by (simp add: Array_sort_Cons ih sort_insert_insort)
qed

lemma descending_sort_key:
  assumes "\<forall>z\<in>set xs. isFinite (key z)"
  shows "sorted_wrt (\<lambda>a b. num_ge (key a) (key b)) (sort_key (\<lambda>z. - finite_value (key z)) xs)"
proof -
  let ?s = "sort_key (\<lambda>z. - finite_value (key z)) xs"
  have "sorted (map (\<lambda>z. - finite_value (key z)) ?s)"
    by (rule sorted_sort_key)
  then have s: "sorted_wrt (\<lambda>a b. - finite_value (key a) \<le> - finite_value (key b)) ?s"
    by (simp add: sorted_map)
  have ge: "num_ge (key a) (key b)"
    if "a \<in> set ?s" "b \<in> set ?s" "- finite_value (key a) \<le> - finite_value (key b)" for a b
  proof -
    have "isFinite (key a)" "isFinite (key b)"
      using that(1,2) assms by simp_all
    then obtain p q where "key a = Fin p" "key b = Fin q"
      by (auto simp: isFinite_iff)
    then show ?thesis using that(3) by simp
  qed
  show ?thesis
    by (rule sorted_wrt_mono_rel [OF _ s]) (rule ge)
qed

lemma stable_sort_key:
  assumes "\<forall>z\<in>set xs. isFinite (key z)"
  shows "filter (\<lambda>z. key z = k) (sort_key (\<lambda>z. - finite_value (key z)) xs) =
           filter (\<lambda>z. key z = k) xs"
proof (cases k)
  case (Fin q)
  have eq: "(key z = k) = (- finite_value (key z) = - q)" if "z \<in> set xs" for z
    using that assms Fin by (auto simp: isFinite_iff)
  have "filter (\<lambda>z. key z = k) (sort_key (\<lambda>z. - finite_value (key z)) xs) =
          filter (\<lambda>z. - finite_value (key z) = - q) (sort_key (\<lambda>z. - finite_value (key z)) xs)"
    by (rule filter_cong) (simp_all add: eq)
  also have "\<dots> = filter (\<lambda>z. - finite_value (key z) = - q) xs"
    by (rule sort_key_stable)
  also have "\<dots> = filter (\<lambda>z. key z = k) xs"
    by (rule filter_cong) (simp_all add: eq)
  finally show ?thesis .
next
  case NaN
  then have "\<And>z. z \<in> set xs \<Longrightarrow> key z \<noteq> k" using assms by (auto simp: isFinite_iff)
  then show ?thesis by (simp add: filter_empty_conv)
next
  case PosInf
  then have "\<And>z. z \<in> set xs \<Longrightarrow> key z \<noteq> k" using assms by (auto simp: isFinite_iff)
  then show ?thesis by (simp add: filter_empty_conv)
next
  case NegInf
  then have "\<And>z. z \<in> set xs \<Longrightarrow> key z \<noteq> k" using assms by (auto simp: isFinite_iff)
  then show ?thesis by (simp add: filter_empty_conv)
qed

section \<open>Properties of the matching loops\<close>

lemma get_match_recs:
  "get_or_empty (match_recs matched d score target g topicRecs) d' =
     get_or_empty matched d' @
     (if d' = d
      then map recommendation_of (filter (\<lambda>rec. matchesConditions rec score target g) topicRecs)
      else [])"
proof (induction topicRecs arbitrary: matched)
  case Nil
  then show ?case by simp
next
  case (Cons rec topicRecs)
  show ?case
  proof (cases "matchesConditions rec score target g")
    case True
    then show ?thesis
      by (simp add: Cons.IH get_or_empty_set)
  next
    case False
    then show ?thesis
      by (simp add: Cons.IH)
  qed
qed

lemma row_matches_eq:
  "row_matches recsByTopic row =
     (case toFiniteNumber (q_current_rating row) of
        None \<Rightarrow> []
      | Some score \<Rightarrow>
          (case toFiniteNumber (q_target_rating row) of
             None \<Rightarrow> []
           | Some target \<Rightarrow>
               map recommendation_of
                 (filter (\<lambda>rec. matchesConditions rec score target (matchingGap score target))
                    (get_or_empty recsByTopic (q_topic_id row)))))"
  by (simp add: row_matches_def match_row_def get_match_recs split: option.splits)

lemma get_match_row:
  "get_or_empty (match_row recsByTopic matched row) d =
     get_or_empty matched d @ (if d = q_dimension_id row then row_matches recsByTopic row else [])"
  by (simp add: row_matches_eq match_row_def get_match_recs split: option.splits)

lemma get_foldl_match_row:
  "get_or_empty (foldl (match_row recsByTopic) matched rows) d =
     get_or_empty matched d @ dimension_matches recsByTopic rows d"
proof (induction rows arbitrary: matched)
  case Nil
  then show ?case by (simp add: dimension_matches_def)
next
  case (Cons row rows)
  have "get_or_empty (foldl (match_row recsByTopic) matched (row # rows)) d =
          get_or_empty (match_row recsByTopic matched row) d @ dimension_matches recsByTopic rows d"
    by (simp add: Cons.IH)
  then show ?case
    by (simp add: get_match_row dimension_matches_def)
qed

lemma get_match_rows:
  "get_or_empty (match_rows recsByTopic rows) d = dimension_matches recsByTopic rows d"
  by (simp add: match_rows_def get_foldl_match_row)

lemma distinct_keys_match_recs:
  "distinct (map fst matched) \<Longrightarrow>
   distinct (map fst (match_recs matched d score target g topicRecs))"
  by (induction topicRecs arbitrary: matched) (simp_all add: Map_set_def distinct_update)

lemma distinct_keys_match_row:
  "distinct (map fst matched) \<Longrightarrow> distinct (map fst (match_row recsByTopic matched row))"
  by (simp add: match_row_def distinct_keys_match_recs split: option.splits)

lemma distinct_keys_match_rows: "distinct (map fst (match_rows recsByTopic rows))"
proof -
  have "distinct (map fst matched) \<Longrightarrow>
        distinct (map fst (foldl (match_row recsByTopic) matched rows))" for matched
    by (induction rows arbitrary: matched) (simp_all add: distinct_keys_match_row)
  then show ?thesis by (simp add: match_rows_def)
qed

lemma get_foldl_rank_entry:
  assumes "distinct (map fst entries)"
  shows "get_or_empty (foldl rank_entry matched entries) d =
           (case map_of entries d of
              None \<Rightarrow> get_or_empty matched d
            | Some recs \<Rightarrow> take 5 (Array_sort by_priority_desc recs))"
  using assms
proof (induction entries arbitrary: matched)
  case Nil
  then show ?case by simp
next
  case (Cons entry entries)
  define k where "k = fst entry"
  define ranked where "ranked = take 5 (Array_sort by_priority_desc (snd entry))"
  have absent: "map_of entries k = None"
    using Cons.prems by (simp add: k_def map_of_eq_None_iff)
  have head: "map_of (entry # entries) d = (if d = k then Some (snd entry) else map_of entries d)"
    by (cases entry) (simp add: k_def)
  have step: "get_or_empty (rank_entry matched entry) d =
                (if d = k then ranked else get_or_empty matched d)"
    by (cases entry) (simp add: k_def ranked_def rank_entry_def get_or_empty_set)
  have "distinct (map fst entries)"
    using Cons.prems by simp
  then have "get_or_empty (foldl rank_entry (rank_entry matched entry) entries) d =
          (case map_of entries d of
             None \<Rightarrow> get_or_empty (rank_entry matched entry) d
           | Some recs \<Rightarrow> take 5 (Array_sort by_priority_desc recs))"
    by (rule Cons.IH)
  then have fold: "get_or_empty (foldl rank_entry (rank_entry matched entry) entries) d =
          (case map_of entries d of
             None \<Rightarrow> (if d = k then ranked else get_or_empty matched d)
           | Some recs \<Rightarrow> take 5 (Array_sort by_priority_desc recs))"
    by (simp only: step)
  have whole: "get_or_empty (foldl rank_entry matched (entry # entries)) d =
          (case map_of entries d of
             None \<Rightarrow> (if d = k then ranked else get_or_empty matched d)
           | Some recs \<Rightarrow> take 5 (Array_sort by_priority_desc recs))"
    unfolding foldl_Cons by (rule fold)
  show ?case
    unfolding whole head using absent by (cases "d = k") (simp_all add: ranked_def)
qed

lemma get_rank_recommendations:
  assumes "distinct (map fst matched)"
  shows "get_or_empty (rank_recommendations matched) d =
           take 5 (Array_sort by_priority_desc (get_or_empty matched d))"
  using get_foldl_rank_entry [OF assms, of matched d]
  by (cases "map_of matched d") (simp_all add: rank_recommendations_def get_or_empty_def Map_get_def)

text \<open>What a dimension gets as its recommendations.\<close>

lemma get_matchedRecommendationsByDimension:
  "get_or_empty (matchedRecommendationsByDimension db rows) d =
     take 5 (Array_sort by_priority_desc (dimension_matches (recsByTopic_of db rows) rows d))"
  by (simp add: matchedRecommendationsByDimension_def get_rank_recommendations
      distinct_keys_match_rows get_match_rows)

subsection \<open>The rules of a topic\<close>

lemma get_group_rec:
  "get_or_empty (group_rec recsByTopic rec) k =
     get_or_empty recsByTopic k @ (if k = a_topic_id rec then [convert_rec rec] else [])"
proof (cases "Map_get recsByTopic (a_topic_id rec)")
  case None
  then show ?thesis
    by (simp add: group_rec_def Map_has_get Map_get_set get_or_empty_set Let_def)
       (simp add: get_or_empty_def)
next
  case (Some recs)
  then show ?thesis
    by (simp add: group_rec_def Map_has_get Map_get_set get_or_empty_set Let_def)
       (simp add: get_or_empty_def)
qed

lemma get_foldl_group_rec:
  "get_or_empty (foldl group_rec recsByTopic allTopicRecs) k =
     get_or_empty recsByTopic k @
     map convert_rec (filter (\<lambda>rec. a_topic_id rec = k) allTopicRecs)"
proof (induction allTopicRecs arbitrary: recsByTopic)
  case Nil
  then show ?case by simp
next
  case (Cons rec allTopicRecs)
  show ?case
    by (simp add: Cons.IH get_group_rec)
qed

lemma get_group_by_topic:
  "get_or_empty (group_by_topic allTopicRecs) k =
     map convert_rec (filter (\<lambda>rec. a_topic_id rec = k) allTopicRecs)"
  by (simp add: group_by_topic_def get_foldl_group_rec)



lemma get_recsByTopic_of:
  "get_or_empty (recsByTopic_of db rows) k =
     map convert_rec
       (filter (\<lambda>rec. a_topic_id rec = k) (select_topic_recs db (topicIds_of rows)))"
proof (cases "length (topicIds_of rows) > 0")
  case True
  then show ?thesis by (simp add: recsByTopic_of_def get_group_by_topic)
next
  case False
  then have "join_topic_recs db (topicIds_of rows) = []"
    by (auto simp: join_topic_recs_def concat_eq_Nil_conv)
  then show ?thesis using False
    by (simp add: recsByTopic_of_def select_topic_recs_def)
qed





lemma priority_convert_rec [simp]:
  "r_priority (recommendation_of (convert_rec rec)) = Fin (of_int (a_priority rec))"
  by (simp add: recommendation_of_def convert_rec_def)

lemma row_matches_finite_priority:
  assumes "x \<in> set (row_matches (recsByTopic_of db rows) row)"
  shows "isFinite (r_priority x)"
proof -
  have "\<exists>rec. x = recommendation_of (convert_rec rec)"
    using assms by (auto simp: row_matches_eq get_recsByTopic_of split: option.splits)
  then show ?thesis by auto
qed

lemma dimension_matches_finite_priority:
  "\<forall>x\<in>set (dimension_matches (recsByTopic_of db rows) rows d). isFinite (r_priority x)"
  by (auto simp: dimension_matches_def row_matches_finite_priority)

text \<open>The recommendations of a dimension: the five first of the stable sort by priority.\<close>

lemma recommendations_of_dimension:
  "get_or_empty (matchedRecommendationsByDimension db rows) d =
     take 5 (sort_key (\<lambda>x. - finite_value (r_priority x))
               (dimension_matches (recsByTopic_of db rows) rows d))"
proof -
  have "Array_sort by_priority_desc (dimension_matches (recsByTopic_of db rows) rows d) =
          sort_key (\<lambda>x. - finite_value (r_priority x))
            (dimension_matches (recsByTopic_of db rows) rows d)"
    using Array_sort_sort_key [of "dimension_matches (recsByTopic_of db rows) rows d" r_priority]
      dimension_matches_finite_priority [of db rows d]
    by (simp add: by_priority_desc_def [abs_def])
  then show ?thesis by (simp add: get_matchedRecommendationsByDimension)
qed

section \<open>Claims about the matched rules\<close>



lemma id_select_row [simp]:
  "r_id (recommendation_of (convert_rec (select_row r t))) = rec_id r"
  "a_topic_id (select_row r t) = rec_topic_id r"
  by (simp_all add: recommendation_of_def convert_rec_def select_row_def)



section \<open>Properties of the writes\<close>

lemma upsert_priority_replaced:
  fixes old v :: computed_priorities_row
  assumes "cp_response_id old = cp_response_id v" and "cp_dimension_id old = cp_dimension_id v"
  shows "old\<lparr>cp_dimension_score := cp_dimension_score v,
            cp_dimension_gap := cp_dimension_gap v,
            cp_priority_score := cp_priority_score v,
            cp_rank_order := cp_rank_order v,
            cp_recommendations := cp_recommendations v,
            cp_computed_at := cp_computed_at v\<rparr> = v"
  using assms by (cases old, cases v) simp

lemma key_without_computed_at [simp]:
  "cp_response_id (without_computed_at p) = cp_response_id p"
  "cp_dimension_id (without_computed_at p) = cp_dimension_id p"
  by (simp_all add: without_computed_at_def)

lemma find_upsert_same:
  "find (\<lambda>p. cp_response_id p = cp_response_id v \<and> cp_dimension_id p = cp_dimension_id v)
     (upsert_priority v tbl) = Some v"
  by (induction tbl) (simp_all add: upsert_priority_replaced)

lemma find_upsert_other:
  assumes "(r, d) \<noteq> (cp_response_id v, cp_dimension_id v)"
  shows "find (\<lambda>p. cp_response_id p = r \<and> cp_dimension_id p = d) (upsert_priority v tbl) =
         find (\<lambda>p. cp_response_id p = r \<and> cp_dimension_id p = d) tbl"
  using assms by (induction tbl) auto

lemma find_foldl_upsert_other:
  assumes "(r, d) \<notin> set (map priority_key vs)"
  shows "find (\<lambda>p. cp_response_id p = r \<and> cp_dimension_id p = d)
           (foldl (\<lambda>tbl v. upsert_priority v tbl) tbl vs) =
         find (\<lambda>p. cp_response_id p = r \<and> cp_dimension_id p = d) tbl"
  using assms
proof (induction vs arbitrary: tbl)
  case Nil
  then show ?case by simp
next
  case (Cons v vs)
  have "(r, d) \<noteq> (cp_response_id v, cp_dimension_id v)"
    using Cons.prems by (auto simp: priority_key_def)
  then show ?case
    using Cons.prems by (simp add: Cons.IH find_upsert_other)
qed

lemma find_foldl_upsert_same:
  assumes "distinct (map priority_key vs)" and "v \<in> set vs"
  shows "find (\<lambda>p. cp_response_id p = cp_response_id v \<and> cp_dimension_id p = cp_dimension_id v)
           (foldl (\<lambda>tbl v. upsert_priority v tbl) tbl vs) = Some v"
  using assms
proof (induction vs arbitrary: tbl)
  case Nil
  then show ?case by simp
next
  case (Cons w vs)
  show ?case
  proof (cases "v \<in> set vs")
    case True
    then show ?thesis using Cons.prems by (simp add: Cons.IH)
  next
    case False
    then have w: "w = v" using Cons.prems by simp
    have "(cp_response_id v, cp_dimension_id v) \<notin> set (map priority_key vs)"
      using Cons.prems w by (simp add: priority_key_def [abs_def])
    then show ?thesis
      using w by (simp add: find_foldl_upsert_other find_upsert_same)
  qed
qed

text \<open>After the \<open>INSERT\<close>, the row of every key of the values is the row of the values.\<close>

lemma priority_row_insert_priorities:
  assumes "distinct (map priority_key vs)" and "v \<in> set vs"
  shows "priority_row (insert_priorities vs db) (cp_response_id v) (cp_dimension_id v) = Some v"
  using find_foldl_upsert_same [OF assms] by (simp add: priority_row_def insert_priorities_def)

lemma priority_row_update_response [simp]:
  "priority_row (update_response now responseId s g db) r d = priority_row db r d"
  by (simp add: priority_row_def update_response_def)

lemma keys_upsert_priority:
  "map priority_key (upsert_priority v tbl) =
     (if priority_key v \<in> set (map priority_key tbl) then map priority_key tbl
      else map priority_key tbl @ [priority_key v])"
  by (induction tbl) (auto simp: priority_key_def)

lemma distinct_keys_upsert:
  "distinct (map priority_key tbl) \<Longrightarrow> distinct (map priority_key (upsert_priority v tbl))"
  by (simp add: keys_upsert_priority)

lemma distinct_keys_foldl_upsert:
  "distinct (map priority_key tbl) \<Longrightarrow>
   distinct (map priority_key (foldl (\<lambda>tbl v. upsert_priority v tbl) tbl vs))"
  by (induction vs arbitrary: tbl) (simp_all add: distinct_keys_upsert)

text \<open>Writing a row again that the table has, up to its time, changes only the time.\<close>

lemma find_map_without_computed_at:
  "find (\<lambda>p. cp_response_id p = r \<and> cp_dimension_id p = d) (map without_computed_at tbl) =
     map_option without_computed_at (find (\<lambda>p. cp_response_id p = r \<and> cp_dimension_id p = d) tbl)"
  by (induction tbl) simp_all

lemma upsert_again:
  assumes "find (\<lambda>p. cp_response_id p = cp_response_id v \<and> cp_dimension_id p = cp_dimension_id v)
             (map without_computed_at tbl) = Some (without_computed_at v)"
  shows "map without_computed_at (upsert_priority v tbl) = map without_computed_at tbl"
  using assms
proof (induction tbl)
  case Nil
  then show ?case by simp
next
  case (Cons old tbl)
  show ?case
  proof (cases "cp_response_id old = cp_response_id v \<and> cp_dimension_id old = cp_dimension_id v")
    case True
    then have "without_computed_at old = without_computed_at v"
      using Cons.prems by simp
    then show ?thesis
      using True by (simp add: upsert_priority_replaced)
  next
    case False
    then have "find (\<lambda>p. cp_response_id p = cp_response_id v \<and> cp_dimension_id p = cp_dimension_id v)
             (map without_computed_at tbl) = Some (without_computed_at v)"
      using Cons.prems by auto
    then show ?thesis
      using False by (auto simp: Cons.IH)
  qed
qed

lemma foldl_upsert_again:
  assumes "\<forall>v\<in>set vs.
             find (\<lambda>p. cp_response_id p = cp_response_id v \<and> cp_dimension_id p = cp_dimension_id v)
               (map without_computed_at tbl) = Some (without_computed_at v)"
  shows "map without_computed_at (foldl (\<lambda>tbl v. upsert_priority v tbl) tbl vs) =
           map without_computed_at tbl"
  using assms
proof (induction vs arbitrary: tbl)
  case Nil
  then show ?case by simp
next
  case (Cons v vs)
  have one: "map without_computed_at (upsert_priority v tbl) = map without_computed_at tbl"
    using Cons.prems by (intro upsert_again) simp
  have "map without_computed_at (foldl (\<lambda>tbl v. upsert_priority v tbl) (upsert_priority v tbl) vs) =
          map without_computed_at (upsert_priority v tbl)"
    using Cons.prems by (intro Cons.IH) (simp add: one)
  then show ?case by (simp add: one)
qed

subsection \<open>The rows of values\<close>

lemma dimension_ids_priority_values:
  "map cp_dimension_id (priority_values responseId now matched i ds) = map cd_id ds"
  by (induction ds arbitrary: i) simp_all

lemma response_id_priority_values:
  "p \<in> set (priority_values responseId now matched i ds) \<Longrightarrow> cp_response_id p = responseId"
  by (induction ds arbitrary: i) auto

lemma rank_order_priority_values:
  "map cp_rank_order (priority_values responseId now matched i ds) = [i + 1 ..< i + 1 + length ds]"
proof (induction ds arbitrary: i)
  case Nil
  then show ?case by simp
next
  case (Cons d ds)
  have "[i + 1 ..< i + 1 + length (d # ds)] = (i + 1) # [Suc (i + 1) ..< i + 1 + length (d # ds)]"
    by (rule upt_conv_Cons) simp
  then show ?case using Cons.IH [of "i + 1"] by simp
qed

lemma length_priority_values [simp]:
  "length (priority_values responseId now matched i ds) = length ds"
  by (induction ds arbitrary: i) simp_all

lemma nth_priority_values:
  "j < length ds \<Longrightarrow>
   priority_values responseId now matched i ds ! j =
     \<lparr>cp_response_id = responseId, cp_dimension_id = cd_id (ds ! j),
      cp_dimension_score = m_score (ds ! j), cp_dimension_gap = m_gap (ds ! j),
      cp_priority_score = priorityScore (ds ! j), cp_rank_order = i + j + 1,
      cp_recommendations = get_or_empty matched (cd_id (ds ! j)),
      cp_computed_at = now\<rparr>"
proof (induction ds arbitrary: i j)
  case Nil
  then show ?case by simp
next
  case (Cons d ds)
  show ?case
  proof (cases j)
    case 0
    then show ?thesis by simp
  next
    case (Suc k)
    then show ?thesis using Cons.prems Cons.IH [of k "i + 1"] by simp
  qed
qed

lemma keys_priority_values:
  "map priority_key (priority_values responseId now matched i ds) =
     map (\<lambda>d. (responseId, cd_id d)) ds"
  by (induction ds arbitrary: i) (simp_all add: priority_key_def)

lemma priority_values_other_time:
  "map without_computed_at (priority_values responseId now matched i ds) =
   map without_computed_at (priority_values responseId now' matched i ds)"
  by (induction ds arbitrary: i) (simp_all add: without_computed_at_def)

section \<open>Properties of the grouped and sorted dimensions\<close>

lemma in_set_update:
  "(k', v') \<in> set (AList.update k v m) \<Longrightarrow> (k', v') = (k, v) \<or> (k', v') \<in> set m"
  by (induction m) (auto split: if_splits)

text \<open>
  The map of the dimensions has every key once, and the group of a key carries the key as
  its identifier.
\<close>

lemma Map_set_keys_ok:
  assumes "distinct (map fst m)" and "\<forall>p\<in>set m. dim_id (snd p) = fst p" and "dim_id g = k"
  shows "distinct (map fst (Map_set m k g)) \<and> (\<forall>p\<in>set (Map_set m k g). dim_id (snd p) = fst p)"
proof -
  have "dim_id (snd p) = fst p" if "p \<in> set (AList.update k g m)" for p
    using in_set_update [of "fst p" "snd p" k g m] that assms(2,3) by auto
  then show ?thesis
    using assms(1) by (simp add: Map_set_def distinct_update)
qed

lemma group_row_keys_ok:
  assumes "distinct (map fst m)" and "\<forall>p\<in>set m. dim_id (snd p) = fst p"
  shows "distinct (map fst (group_row m row)) \<and> (\<forall>p\<in>set (group_row m row). dim_id (snd p) = fst p)"
proof -
  define k where "k = q_dimension_id row"
  define g0 where "g0 = \<lparr>dim_id = k, dim_title = q_dimension_title row,
                         dim_order = q_order_index row, dim_topics = []\<rparr>"
  define m1 where "m1 = (if \<not> Map_has m k then Map_set m k g0 else m)"
  define topic where "topic = \<lparr>currentRating = or_NaN (toFiniteNumber (q_current_rating row)),
                      targetRating = or_NaN (toFiniteNumber (q_target_rating row)),
                      topicId = q_topic_id row, topicKey = q_topic_key row\<rparr>"
  have gr: "group_row m row =
              (case Map_get m1 k of
                 None \<Rightarrow> m1
               | Some g \<Rightarrow> Map_set m1 k (g\<lparr>dim_topics := dim_topics g @ [topic]\<rparr>))"
    by (simp only: group_row_def Let_def m1_def k_def g0_def topic_def)
  have ok1: "distinct (map fst m1) \<and> (\<forall>p\<in>set m1. dim_id (snd p) = fst p)"
  proof (cases "Map_has m k")
    case True
    then show ?thesis using assms by (simp add: m1_def)
  next
    case False
    have "dim_id g0 = k" by (simp add: g0_def)
    then have "distinct (map fst (Map_set m k g0)) \<and>
               (\<forall>p\<in>set (Map_set m k g0). dim_id (snd p) = fst p)"
      by (rule Map_set_keys_ok [OF assms])
    then show ?thesis using False by (simp add: m1_def)
  qed
  show ?thesis
  proof (cases "Map_get m1 k")
    case None
    then show ?thesis using ok1 gr by simp
  next
    case (Some g)
    then have "(k, g) \<in> set m1"
      by (simp add: Map_get_def map_of_SomeD)
    then have "dim_id g = k" using ok1 by fastforce
    then have "dim_id (g\<lparr>dim_topics := dim_topics g @ [topic]\<rparr>) = k" by simp
    then have "distinct (map fst (Map_set m1 k (g\<lparr>dim_topics := dim_topics g @ [topic]\<rparr>))) \<and>
               (\<forall>p\<in>set (Map_set m1 k (g\<lparr>dim_topics := dim_topics g @ [topic]\<rparr>)).
                  dim_id (snd p) = fst p)"
      using ok1 by (intro Map_set_keys_ok) simp_all
    then show ?thesis using gr Some by simp
  qed
qed

lemma foldl_group_row_keys_ok:
  assumes "distinct (map fst m)" and "\<forall>p\<in>set m. dim_id (snd p) = fst p"
  shows "distinct (map fst (foldl group_row m rows)) \<and>
         (\<forall>p\<in>set (foldl group_row m rows). dim_id (snd p) = fst p)"
  using assms
proof (induction rows arbitrary: m)
  case Nil
  then show ?case by simp
next
  case (Cons row rows)
  have "distinct (map fst (group_row m row)) \<and> (\<forall>p\<in>set (group_row m row). dim_id (snd p) = fst p)"
    using Cons.prems by (rule group_row_keys_ok)
  then show ?case using Cons.IH [of "group_row m row"] by simp
qed

lemma distinct_group_ids:
  "distinct (map dim_id (Map_values (group_by_dimension rows)))"
proof -
  let ?m = "group_by_dimension rows"
  have ok: "distinct (map fst ?m) \<and> (\<forall>p\<in>set ?m. dim_id (snd p) = fst p)"
    unfolding group_by_dimension_def by (rule foldl_group_row_keys_ok) simp_all
  then have "map dim_id (Map_values ?m) = map fst ?m"
    by (auto simp: Map_values_def)
  then show ?thesis using ok by simp
qed

lemma priorityScore_finite: "isFinite (priorityScore (calculate_dimension g))"
proof -
  obtain s gp where "calculateDimensionMetrics (dim_topics g) = \<lparr>m_score = Fin s, m_gap = Fin gp\<rparr>"
    using calculateDimensionMetrics_finite by blast
  then show ?thesis
    by (simp add: calculate_dimension_def calculatePriorityScore_def Let_def)
qed

lemma metrics_finite:
  "isFinite (m_score (calculate_dimension g)) \<and> isFinite (m_gap (calculate_dimension g))"
proof -
  obtain s gp where "calculateDimensionMetrics (dim_topics g) = \<lparr>m_score = Fin s, m_gap = Fin gp\<rparr>"
    using calculateDimensionMetrics_finite by blast
  then show ?thesis
    by (simp add: calculate_dimension_def Let_def)
qed

lemma cd_id_calculate_dimension [simp]: "cd_id (calculate_dimension g) = dim_id g"
  by (simp add: calculate_dimension_def Let_def)

text \<open>The sorted dimensions: the stable sort of the groups by descending priority score.\<close>

lemma calculatedDimensions_sort_key:
  "calculatedDimensions rows =
     sort_key (\<lambda>d. - finite_value (priorityScore d))
       (map calculate_dimension (Map_values (group_by_dimension rows)))"
proof -
  have "\<forall>z\<in>set (map calculate_dimension (Map_values (group_by_dimension rows))).
          isFinite (priorityScore z)"
    by (auto simp: priorityScore_finite)
  then show ?thesis
    using Array_sort_sort_key
            [of "map calculate_dimension (Map_values (group_by_dimension rows))" priorityScore]
    by (simp add: calculatedDimensions_def calculate_dimensions_def by_priorityScore_desc_def [abs_def])
qed

lemma calculatedDimensions_finite:
  assumes "d \<in> set (calculatedDimensions rows)"
  shows "isFinite (priorityScore d)" and "isFinite (m_score d)" and "isFinite (m_gap d)"
  using assms by (auto simp: calculatedDimensions_sort_key priorityScore_finite metrics_finite)

lemma distinct_calculatedDimensions: "distinct (map cd_id (calculatedDimensions rows))"
proof -
  let ?gs = "Map_values (group_by_dimension rows)"
  have "mset (map cd_id (calculatedDimensions rows)) = mset (map dim_id ?gs)"
    by (simp add: calculatedDimensions_sort_key multiset.map_comp comp_def)
  moreover have "distinct (map dim_id ?gs)"
    by (rule distinct_group_ids)
  ultimately show ?thesis
    using mset_eq_imp_distinct_iff by blast
qed

lemma descending_calculatedDimensions:
  "sorted_wrt (\<lambda>a b. num_ge (priorityScore a) (priorityScore b)) (calculatedDimensions rows)"
  unfolding calculatedDimensions_sort_key
  by (rule descending_sort_key) (auto simp: priorityScore_finite)

lemma distinct_keys_priorities_written:
  "distinct (map priority_key (priorities_written now db responseId))"
proof -
  have "distinct (map (Pair responseId)
               (map cd_id (calculatedDimensions (select_topic_responses db responseId))))"
    using distinct_calculatedDimensions by (simp add: distinct_map inj_on_def del: map_map)
  then show ?thesis
    by (simp add: priorities_written_def keys_priority_values comp_def Let_def)
qed

section \<open>Claims about ranking and persistence\<close>

lemma num_gt_not_ge: "num_gt a b \<Longrightarrow> \<not> num_ge b a"
  by (cases a; cases b) simp_all

lemma num_gt_irrefl: "\<not> num_gt a a"
  by (cases a) simp_all

lemma num_ge_refl: "isFinite a \<Longrightarrow> num_ge a a"
  by (cases a) simp_all

text \<open>The row of values of a sorted dimension, and where a successful run leaves it.\<close>

lemma written_nth:
  assumes "i < length (calculatedDimensions (select_topic_responses db responseId))"
  shows "priorities_written now db responseId ! i =
     \<lparr>cp_response_id = responseId,
      cp_dimension_id = cd_id (calculatedDimensions (select_topic_responses db responseId) ! i),
      cp_dimension_score = m_score (calculatedDimensions (select_topic_responses db responseId) ! i),
      cp_dimension_gap = m_gap (calculatedDimensions (select_topic_responses db responseId) ! i),
      cp_priority_score = priorityScore (calculatedDimensions (select_topic_responses db responseId) ! i),
      cp_rank_order = i + 1,
      cp_recommendations =
        get_or_empty
          (matchedRecommendationsByDimension db (select_topic_responses db responseId))
          (cd_id (calculatedDimensions (select_topic_responses db responseId) ! i)),
      cp_computed_at = now\<rparr>"
  using nth_priority_values [OF assms, of responseId now _ 0]
  by (simp add: priorities_written_def Let_def)

lemma length_written [simp]:
  "length (priorities_written now db responseId) =
     length (calculatedDimensions (select_topic_responses db responseId))"
  by (simp add: priorities_written_def Let_def)

lemma written_persisted:
  assumes "computeResults fails now db responseId = (db', Inr res)"
    and "p \<in> set (priorities_written now db responseId)"
  shows "cp_response_id p = responseId"
    and "priority_row db' responseId (cp_dimension_id p) = Some p"
proof -
  show r: "cp_response_id p = responseId"
    using assms(2) by (auto simp: priorities_written_def Let_def dest: response_id_priority_values)
  have "priority_row (insert_priorities (priorities_written now db responseId) db)
          (cp_response_id p) (cp_dimension_id p) = Some p"
    using distinct_keys_priorities_written assms(2) by (rule priority_row_insert_priorities)
  then show "priority_row db' responseId (cp_dimension_id p) = Some p"
    using computeResults_Inr(1) [OF assms(1)] r by simp
qed

text \<open>
  C5. After a successful run with \<open>N\<close> computed dimensions, the rows written to
  \<open>computed_priorities\<close> carry the ranks \<open>1, ..., N\<close> in this order, one row for each
  dimension of the response, and each is the row that the table then has for its key. The
  rows are in descending order of priority score: a row with a strictly greater priority
  score has a strictly smaller rank, and the row of rank 1 has a greatest priority score.
\<close>

theorem rank_order_dense:
  assumes "computeResults fails now db responseId = (db', Inr res)"
  shows "map cp_rank_order (priorities_written now db responseId) =
           [1 ..< length (calculatedDimensions (select_topic_responses db responseId)) + 1] \<and>
         map cp_dimension_id (priorities_written now db responseId) =
           map cd_id (calculatedDimensions (select_topic_responses db responseId)) \<and>
         distinct (map cp_dimension_id (priorities_written now db responseId)) \<and>
         (\<forall>p\<in>set (priorities_written now db responseId).
            cp_response_id p = responseId \<and>
            priority_row db' responseId (cp_dimension_id p) = Some p) \<and>
         sorted_wrt (\<lambda>p q. num_ge (cp_priority_score p) (cp_priority_score q))
           (priorities_written now db responseId) \<and>
         (\<forall>p\<in>set (priorities_written now db responseId).
          \<forall>q\<in>set (priorities_written now db responseId).
            (num_gt (cp_priority_score p) (cp_priority_score q) \<longrightarrow>
               cp_rank_order p < cp_rank_order q) \<and>
            (cp_rank_order p = 1 \<longrightarrow> num_ge (cp_priority_score p) (cp_priority_score q)))"
proof -
  let ?dims = "calculatedDimensions (select_topic_responses db responseId)"
  let ?w = "priorities_written now db responseId"
  have ranks: "map cp_rank_order ?w = [1 ..< length ?dims + 1]"
    using rank_order_priority_values [of responseId now _ 0 ?dims]
    by (simp add: priorities_written_def Let_def)
  have ids: "map cp_dimension_id ?w = map cd_id ?dims"
    by (simp add: priorities_written_def Let_def dimension_ids_priority_values)
  have dist: "distinct (map cp_dimension_id ?w)"
    using distinct_calculatedDimensions by (simp add: ids)
  have pers: "\<forall>p\<in>set ?w. cp_response_id p = responseId \<and>
                priority_row db' responseId (cp_dimension_id p) = Some p"
    using written_persisted [OF assms] by blast
  have score: "cp_priority_score (?w ! i) = priorityScore (?dims ! i)"
    and rank: "cp_rank_order (?w ! i) = i + 1" if "i < length ?dims" for i
    using written_nth [OF that] by simp_all
  have desc: "num_ge (priorityScore (?dims ! i)) (priorityScore (?dims ! j))"
    if "i < j" "j < length ?dims" for i j
    using descending_calculatedDimensions [of "select_topic_responses db responseId"] that
    by (simp add: sorted_wrt_iff_nth_less)
  have sorted: "sorted_wrt (\<lambda>p q. num_ge (cp_priority_score p) (cp_priority_score q)) ?w"
    using desc by (simp add: sorted_wrt_iff_nth_less score)
  have pair: "(num_gt (cp_priority_score p) (cp_priority_score q) \<longrightarrow>
                 cp_rank_order p < cp_rank_order q) \<and>
              (cp_rank_order p = 1 \<longrightarrow> num_ge (cp_priority_score p) (cp_priority_score q))"
    if pq: "p \<in> set ?w" "q \<in> set ?w" for p q
  proof -
    obtain i where i': "i < length ?w" "?w ! i = p"
      using pq(1) unfolding in_set_conv_nth by blast
    obtain j where j': "j < length ?w" "?w ! j = q"
      using pq(2) unfolding in_set_conv_nth by blast
    have i: "i < length ?dims" "p = ?w ! i" and j: "j < length ?dims" "q = ?w ! j"
      using i' j' by simp_all
    have fin: "isFinite (priorityScore (?dims ! j))"
      using j(1) by (intro calculatedDimensions_finite(1) [of _ "select_topic_responses db responseId"]) simp
    have "i < j" if gt: "num_gt (priorityScore (?dims ! i)) (priorityScore (?dims ! j))"
    proof (rule ccontr)
      assume "\<not> i < j"
      then consider "j = i" | "j < i" by linarith
      then show False
      proof cases
        case 1
        then show False using gt num_gt_irrefl by simp
      next
        case 2
        then have "num_ge (priorityScore (?dims ! j)) (priorityScore (?dims ! i))"
          using desc i(1) by simp
        then show False using gt num_gt_not_ge by blast
      qed
    qed
    moreover have "num_ge (priorityScore (?dims ! i)) (priorityScore (?dims ! j))" if i0: "i = 0"
    proof (cases "j = 0")
      case True
      then show ?thesis using i0 fin num_ge_refl by simp
    next
      case False
      then show ?thesis using i0 desc j(1) by simp
    qed
    moreover have "cp_priority_score p = priorityScore (?dims ! i)" "cp_rank_order p = i + 1"
      "cp_priority_score q = priorityScore (?dims ! j)" "cp_rank_order q = j + 1"
      using i j by (simp_all add: score rank)
    ultimately show ?thesis
      by simp
  qed
  show ?thesis
    by (intro conjI ballI) (fact ranks ids dist sorted | simp add: pers | simp add: pair)+
qed

theorem rank_order_dense_witness:
  "\<exists>db' res.
     computeResults (\<lambda>s. False) 7 example_db ''r1'' = (db', Inr res) \<and>
     map cp_rank_order (priorities_written 7 example_db ''r1'') = [1, 2] \<and>
     map cp_dimension_id (priorities_written 7 example_db ''r1'') = [''d1'', ''d2''] \<and>
     map cp_priority_score (priorities_written 7 example_db ''r1'') = [Fin (3 / 2), Fin 0] \<and>
     (\<forall>p\<in>set (priorities_written 7 example_db ''r1'').
        priority_row db' ''r1'' (cp_dimension_id p) = Some p)"
proof -
  obtain db' res where run: "computeResults (\<lambda>s. False) 7 example_db ''r1'' = (db', Inr res)"
    using computeResults_no_failure [of example_db "''r1''" "\<lambda>s. False" 7] by auto
  have dims: "map cd_id (calculatedDimensions (select_topic_responses example_db ''r1'')) =
                [''d1'', ''d2'']"
    by code_simp
  then have len: "length (calculatedDimensions (select_topic_responses example_db ''r1'')) = 2"
    by (metis length_map length_Cons list.size(3) numeral_2_eq_2)
  have scores: "map cp_priority_score (priorities_written 7 example_db ''r1'') = [Fin (3 / 2), Fin 0]"
    by code_simp
  have "[1 ..< 2 + 1] = [1, 2::nat]"
    by (simp add: upt_rec)
  then show ?thesis
    using rank_order_dense [OF run] run dims len scores by auto
qed

text \<open>
  C4. After a successful run, the row of \<open>computed_priorities\<close> of every computed dimension
  holds as its recommendations the first five entries of a list that rearranges the matches
  of the dimension's rows, is in descending order of priority, and keeps matches of equal
  priority in the order of their discovery.
\<close>

theorem recommendations_ranked:
  assumes "computeResults fails now db responseId = (db', Inr res)"
    and "d \<in> set (calculatedDimensions (select_topic_responses db responseId))"
  shows "\<exists>p ranked.
           priority_row db' responseId (cd_id d) = Some p \<and>
           cp_recommendations p = take 5 ranked \<and>
           length (cp_recommendations p) \<le> 5 \<and>
           mset ranked =
             mset (dimension_matches
                     (recsByTopic_of db (select_topic_responses db responseId))
                     (select_topic_responses db responseId) (cd_id d)) \<and>
           sorted_wrt (\<lambda>a b. num_ge (r_priority a) (r_priority b)) ranked \<and>
           (\<forall>k. filter (\<lambda>x. r_priority x = k) ranked =
                filter (\<lambda>x. r_priority x = k)
                  (dimension_matches
                     (recsByTopic_of db (select_topic_responses db responseId))
                     (select_topic_responses db responseId) (cd_id d)))"
proof -
  let ?rows = "select_topic_responses db responseId"
  let ?dims = "calculatedDimensions ?rows"
  let ?w = "priorities_written now db responseId"
  let ?found = "dimension_matches (recsByTopic_of db ?rows) ?rows (cd_id d)"
  let ?ranked = "sort_key (\<lambda>x. - finite_value (r_priority x)) ?found"
  obtain i where i: "i < length ?dims" "?dims ! i = d"
    using assms(2) unfolding in_set_conv_nth by blast
  define p where "p = ?w ! i"
  have p_in: "p \<in> set ?w"
    using i(1) by (simp add: p_def)
  have p_id: "cp_dimension_id p = cd_id d"
    and p_recs: "cp_recommendations p = get_or_empty (matchedRecommendationsByDimension db ?rows) (cd_id d)"
    using written_nth [OF i(1), of now] i(2) by (simp_all add: p_def)
  have row: "priority_row db' responseId (cd_id d) = Some p"
    using written_persisted(2) [OF assms(1) p_in] p_id by simp
  have recs: "cp_recommendations p = take 5 ?ranked"
    using p_recs by (simp add: recommendations_of_dimension)
  have fin: "\<forall>x\<in>set ?found. isFinite (r_priority x)"
    by (rule dimension_matches_finite_priority)
  have "mset ?ranked = mset ?found"
    by simp
  moreover have "sorted_wrt (\<lambda>a b. num_ge (r_priority a) (r_priority b)) ?ranked"
    using fin by (rule descending_sort_key)
  moreover have "\<forall>k. filter (\<lambda>x. r_priority x = k) ?ranked = filter (\<lambda>x. r_priority x = k) ?found"
    using stable_sort_key [OF fin] by blast
  moreover have "length (cp_recommendations p) \<le> 5"
    by (simp add: recs)
  ultimately show ?thesis
    using row recs by blast
qed

theorem recommendations_ranked_witness:
  "\<exists>db' res p.
     computeResults (\<lambda>s. False) 7 example_db ''r1'' = (db', Inr res) \<and>
     priority_row db' ''r1'' ''d1'' = Some p \<and>
     map r_id (cp_recommendations p) = [''B'', ''A'', ''F''] \<and>
     map r_id (dimension_matches
                 (recsByTopic_of example_db (select_topic_responses example_db ''r1''))
                 (select_topic_responses example_db ''r1'') ''d1'') = [''A'', ''B'', ''F'']"
proof -
  let ?rows = "select_topic_responses example_db ''r1''"
  obtain db' res where run: "computeResults (\<lambda>s. False) 7 example_db ''r1'' = (db', Inr res)"
    using computeResults_no_failure [of example_db "''r1''" "\<lambda>s. False" 7] by auto
  define d where "d = hd (calculatedDimensions ?rows)"
  have d: "d \<in> set (calculatedDimensions ?rows)" and id: "cd_id d = ''d1''"
    unfolding d_def by code_simp+
  obtain p where row: "priority_row db' ''r1'' ''d1'' = Some p"
    using recommendations_ranked [OF run d] id by auto
  have w: "hd (priorities_written 7 example_db ''r1'') \<in> set (priorities_written 7 example_db ''r1'')"
    and w_id: "cp_dimension_id (hd (priorities_written 7 example_db ''r1'')) = ''d1''"
    and w_recs: "map r_id (cp_recommendations (hd (priorities_written 7 example_db ''r1''))) =
                   [''B'', ''A'', ''F'']"
    by code_simp+
  have "priority_row db' ''r1'' ''d1'' = Some (hd (priorities_written 7 example_db ''r1''))"
    using written_persisted(2) [OF run w] w_id by simp
  then have recs: "map r_id (cp_recommendations p) = [''B'', ''A'', ''F'']"
    using row w_recs by simp
  have found: "map r_id (dimension_matches (recsByTopic_of example_db ?rows) ?rows ''d1'') =
                 [''A'', ''B'', ''F'']"
    by code_simp
  show ?thesis
    by (rule exI [of _ db'], rule exI [of _ res], rule exI [of _ p]) (simp add: run row recs found)
qed

subsection \<open>Running twice\<close>

lemma select_topic_responses_after:
  "select_topic_responses (update_response now r s g (insert_priorities vs db)) responseId =
     select_topic_responses db responseId"
  by (simp add: select_topic_responses_def join_topic_responses_def update_response_def
      insert_priorities_def)

lemma select_topic_recs_after:
  "select_topic_recs (update_response now r s g (insert_priorities vs db)) topicIds =
     select_topic_recs db topicIds"
  by (simp add: select_topic_recs_def join_topic_recs_def update_response_def
      insert_priorities_def)

lemma matched_after:
  "matchedRecommendationsByDimension (update_response now r s g (insert_priorities vs db)) rows =
     matchedRecommendationsByDimension db rows"
  by (simp add: matchedRecommendationsByDimension_def recsByTopic_of_def select_topic_recs_after)

lemma computed_priorities_after:
  "db_computed_priorities (update_response now r s g (insert_priorities vs db)) =
     foldl (\<lambda>tbl v. upsert_priority v tbl) (db_computed_priorities db) vs"
  by (simp add: update_response_def insert_priorities_def)

text \<open>
  C6. Two successful runs for the same response, the second on the database that the first
  one left, return the same result; the second run changes no row of \<open>computed_priorities\<close>
  except for its time of computation and adds none, and the key
  \<open>(response_id, dimension_id)\<close> stays unique.
\<close>

theorem computeResults_idempotent:
  assumes "computeResults fails now db responseId = (db1, Inr res1)"
    and "computeResults fails' now' db1 responseId = (db2, Inr res2)"
  shows "res2 = res1 \<and>
         map without_computed_at (db_computed_priorities db2) =
           map without_computed_at (db_computed_priorities db1) \<and>
         length (db_computed_priorities db2) = length (db_computed_priorities db1) \<and>
         (\<forall>d. map_option without_computed_at (priority_row db2 responseId d) =
               map_option without_computed_at (priority_row db1 responseId d)) \<and>
         (distinct (map priority_key (db_computed_priorities db)) \<longrightarrow>
            distinct (map priority_key (db_computed_priorities db1)) \<and>
            distinct (map priority_key (db_computed_priorities db2)))"
proof -
  let ?w1 = "priorities_written now db responseId"
  let ?w2 = "priorities_written now' db1 responseId"
  let ?t0 = "db_computed_priorities db"
  let ?t1 = "db_computed_priorities db1"
  let ?t2 = "db_computed_priorities db2"
  note first = computeResults_Inr [OF assms(1)]
  note second = computeResults_Inr [OF assms(2)]
  have rows: "select_topic_responses db1 responseId = select_topic_responses db responseId"
    by (subst first(1)) (rule select_topic_responses_after)
  have matched: "matchedRecommendationsByDimension db1 rows = matchedRecommendationsByDimension db rows"
    for rows
    by (subst first(1)) (rule matched_after)
  have overall: "overall_of db1 responseId = overall_of db responseId"
    by (simp add: overall_of_def rows)
  have res: "res2 = res1"
    using first(2) second(2) by (simp add: overall rows)
  have w: "map without_computed_at ?w2 = map without_computed_at ?w1"
    using priority_values_other_time [of responseId now']
    by (simp add: priorities_written_def Let_def rows matched)
  have t1: "?t1 = foldl (\<lambda>tbl v. upsert_priority v tbl) ?t0 ?w1"
    by (subst first(1)) (rule computed_priorities_after)
  have t2: "?t2 = foldl (\<lambda>tbl v. upsert_priority v tbl) ?t1 ?w2"
    by (subst second(1)) (rule computed_priorities_after)
  have again: "find (\<lambda>p. cp_response_id p = cp_response_id v \<and> cp_dimension_id p = cp_dimension_id v)
                 (map without_computed_at ?t1) = Some (without_computed_at v)"
    if v: "v \<in> set ?w2" for v
  proof -
    obtain i where i: "i < length ?w2" "?w2 ! i = v"
      using v unfolding in_set_conv_nth by blast
    have len: "length ?w1 = length ?w2"
      using w by (metis length_map)
    define u where "u = ?w1 ! i"
    have u_in: "u \<in> set ?w1"
      using i(1) len by (simp add: u_def)
    have "map without_computed_at ?w1 ! i = map without_computed_at ?w2 ! i"
      by (simp add: w)
    then have same: "without_computed_at u = without_computed_at v"
      using i len by (simp add: u_def)
    then have key: "cp_response_id u = cp_response_id v" "cp_dimension_id u = cp_dimension_id v"
      by (metis key_without_computed_at(1), metis same key_without_computed_at(2))
    have "find (\<lambda>p. cp_response_id p = cp_response_id u \<and> cp_dimension_id p = cp_dimension_id u) ?t1 =
            Some u"
      unfolding t1 using distinct_keys_priorities_written u_in by (rule find_foldl_upsert_same)
    then show ?thesis
      using key same by (simp add: find_map_without_computed_at)
  qed
  have tables: "map without_computed_at ?t2 = map without_computed_at ?t1"
    unfolding t2 by (rule foldl_upsert_again) (simp add: again)
  have len: "length ?t2 = length ?t1"
    using tables by (metis length_map)
  have lookup: "map_option without_computed_at (priority_row db2 responseId d) =
                map_option without_computed_at (priority_row db1 responseId d)" for d
    using tables by (simp add: priority_row_def find_map_without_computed_at [symmetric])
  have uniq: "distinct (map priority_key ?t1) \<and> distinct (map priority_key ?t2)"
    if "distinct (map priority_key ?t0)"
  proof -
    have "distinct (map priority_key ?t1)"
      unfolding t1 using that by (rule distinct_keys_foldl_upsert)
    moreover from this have "distinct (map priority_key ?t2)"
      unfolding t2 by (rule distinct_keys_foldl_upsert)
    ultimately show ?thesis by simp
  qed
  show ?thesis
    using res tables len lookup uniq by simp
qed

theorem computeResults_idempotent_witness:
  "\<exists>db1 res1 db2 res2.
     computeResults (\<lambda>s. False) 7 example_db ''r1'' = (db1, Inr res1) \<and>
     computeResults (\<lambda>s. False) 9 db1 ''r1'' = (db2, Inr res2) \<and>
     res2 = res1 \<and>
     length (db_computed_priorities db1) = 2 \<and>
     length (db_computed_priorities db2) = 2 \<and>
     map without_computed_at (db_computed_priorities db2) =
       map without_computed_at (db_computed_priorities db1) \<and>
     distinct (map priority_key (db_computed_priorities db2))"
proof -
  obtain db1 res1 where run1: "computeResults (\<lambda>s. False) 7 example_db ''r1'' = (db1, Inr res1)"
    using computeResults_no_failure [of example_db "''r1''" "\<lambda>s. False" 7] by auto
  obtain db2 res2 where run2: "computeResults (\<lambda>s. False) 9 db1 ''r1'' = (db2, Inr res2)"
    using computeResults_no_failure [of db1 "''r1''" "\<lambda>s. False" 9] by auto
  have "length (foldl (\<lambda>tbl v. upsert_priority v tbl) (db_computed_priorities example_db)
                  (priorities_written 7 example_db ''r1'')) = 2"
    by code_simp
  then have len1: "length (db_computed_priorities db1) = 2"
    using computeResults_Inr(1) [OF run1] by (simp add: computed_priorities_after)
  have uniq: "distinct (map priority_key (db_computed_priorities example_db))"
    by (simp add: example_db_def)
  show ?thesis
    using computeResults_idempotent [OF run1 run2] run1 run2 len1 uniq
    by (intro exI [of _ db1] exI [of _ res1] exI [of _ db2] exI [of _ res2]) simp
qed

end
